theory Spec2Isabelle
  imports Main "HOL-Library.Sublist" "HOL-Library.Multiset"
begin

unbundle bit_operations_syntax

section \<open>Strings of the Go library used by the program\<close>

text \<open>
  A Go string is a sequence of bytes; \<^typ>\<open>string\<close> is a list of 8-bit characters.
  The functions of package \<^verbatim>\<open>strings\<close> the program calls are written out here as
  the library documents them.
\<close>

text \<open>\<^verbatim>\<open>strings.Contains(s, substr)\<close>: \<^verbatim>\<open>substr\<close> occurs in \<^verbatim>\<open>s\<close> as a contiguous
  run of bytes (the empty string occurs in every string).\<close>

fun Contains :: "string \<Rightarrow> string \<Rightarrow> bool" where
  "Contains [] substr = (substr = [])"
| "Contains (c # cs) substr = (prefix substr (c # cs) \<or> Contains cs substr)"

text \<open>\<^verbatim>\<open>strings.Repeat(s, count)\<close> for a count that is not negative.\<close>

definition Repeat :: "string \<Rightarrow> nat \<Rightarrow> string" where
  "Repeat s n = concat (replicate n s)"

text \<open>
  The width in bytes of the UTF-8 sequence a string starts with, as
  \<^verbatim>\<open>utf8.DecodeRuneInString\<close> reports it: 1 for an ASCII byte and for every byte
  that does not start a well-formed sequence, otherwise 2, 3 or 4.
\<close>

definition cont_byte :: "char \<Rightarrow> nat \<Rightarrow> nat \<Rightarrow> bool" where
  "cont_byte c lo hi = (lo \<le> (of_char c :: nat) \<and> (of_char c :: nat) \<le> hi)"

fun rune_width :: "string \<Rightarrow> nat" where
  "rune_width [] = 0"
| "rune_width [b0] = 1"
| "rune_width (b0 # b1 # bs) =
     (let n = (of_char b0 :: nat) in
      if n < 0x80 then 1
      else if 0xC2 \<le> n \<and> n \<le> 0xDF then (if cont_byte b1 0x80 0xBF then 2 else 1)
      else if 0xE0 \<le> n \<and> n \<le> 0xEF then
        (if cont_byte b1 (if n = 0xE0 then 0xA0 else 0x80) (if n = 0xED then 0x9F else 0xBF)
            \<and> (case bs of [] \<Rightarrow> False | b2 # _ \<Rightarrow> cont_byte b2 0x80 0xBF)
         then 3 else 1)
      else if 0xF0 \<le> n \<and> n \<le> 0xF4 then
        (if cont_byte b1 (if n = 0xF0 then 0x90 else 0x80) (if n = 0xF4 then 0x8F else 0xBF)
            \<and> (case bs of b2 # b3 # _ \<Rightarrow> cont_byte b2 0x80 0xBF \<and> cont_byte b3 0x80 0xBF
                | _ \<Rightarrow> False)
         then 4 else 1)
      else 1)"

text \<open>\<^verbatim>\<open>explode\<close>: the pieces \<^verbatim>\<open>strings.Split\<close> returns for the empty separator, one per
  UTF-8 sequence; none for the empty string.\<close>

fun explode :: "string \<Rightarrow> string list" where
  "explode [] = []"
| "explode (c # cs) =
     take (rune_width (c # cs)) (c # cs) # explode (drop (rune_width (c # cs) - 1) cs)"

text \<open>
  The pieces for a separator that is not empty: the string is cut at each occurrence of
  the separator, found from the left, the search resuming after the occurrence.
  \<open>acc\<close> holds, reversed, the bytes of the piece being read.
\<close>

function genSplit :: "string \<Rightarrow> string \<Rightarrow> string \<Rightarrow> string list" where
  "genSplit acc s sep =
     (if s = [] then [rev acc]
      else if sep \<noteq> [] \<and> prefix sep s then rev acc # genSplit [] (drop (length sep) s) sep
      else genSplit (hd s # acc) (tl s) sep)"
  by pat_completeness auto
termination
  by (relation "measure (\<lambda>(acc, s, sep). length s)") auto

declare genSplit.simps [simp del]

text \<open>\<^verbatim>\<open>strings.Split(s, sep)\<close>.\<close>

definition Split :: "string \<Rightarrow> string \<Rightarrow> string list" where
  "Split s sep = (if sep = [] then explode s else genSplit [] s sep)"

text \<open>\<^verbatim>\<open>strings.Index(s, substr)\<close> as an option: the offset of the first occurrence.\<close>

fun Index :: "string \<Rightarrow> string \<Rightarrow> nat option" where
  "Index [] substr = (if substr = [] then Some 0 else None)"
| "Index (c # cs) substr =
     (if prefix substr (c # cs) then Some 0 else map_option Suc (Index cs substr))"

section \<open>The rating decoder\<close>

definition RATING_EMOJI :: string where
  "RATING_EMOJI = '':star:''"

definition RATING_EMOJI_2 :: string where
  "RATING_EMOJI_2 = '':star2:''"

text \<open>\<^verbatim>\<open>parseRate\<close>: a switch whose first true case decides.\<close>

definition parseRate :: "string \<Rightarrow> string" where
  "parseRate message =
     (if Contains message ''width: 20%'' then Repeat RATING_EMOJI 1
      else if Contains message ''width: 40%'' then Repeat RATING_EMOJI 2
      else if Contains message ''width: 60%'' then Repeat RATING_EMOJI 3
      else if Contains message ''width: 80%'' then Repeat RATING_EMOJI 4
      else if Contains message ''width: 100%'' then Repeat RATING_EMOJI_2 5
      else '''')"

section \<open>Times and dates\<close>

text \<open>
  A \<^verbatim>\<open>time.Time\<close> is an instant. Every instant the program holds is the result of
  \<^verbatim>\<open>time.Parse\<close> under a layout that has a year, a month and a day only, hence midnight
  UTC of a calendar day; the value kept is what \<^verbatim>\<open>Unix()\<close> returns, the seconds since
  1970-01-01.
\<close>

datatype Time = Time (Unix: int)

definition isLeap :: "int \<Rightarrow> bool" where
  "isLeap year = (year mod 4 = 0 \<and> (year mod 100 \<noteq> 0 \<or> year mod 400 = 0))"

definition daysIn :: "int \<Rightarrow> int \<Rightarrow> int" where
  "daysIn m year =
     (if m = 2 then (if isLeap year then 29 else 28)
      else if m = 4 \<or> m = 6 \<or> m = 9 \<or> m = 11 then 30 else 31)"

definition daysBefore :: "int \<Rightarrow> int" where
  "daysBefore m = [0, 31, 59, 90, 120, 151, 181, 212, 243, 273, 304, 334] ! nat (m - 1)"

text \<open>\<^verbatim>\<open>time.Date(year, month, day, 0, 0, 0, 0, time.UTC)\<close> for a month from 1 to 12: the days
  from 1970-01-01 to the day, in seconds.\<close>

definition Date :: "int \<Rightarrow> int \<Rightarrow> int \<Rightarrow> Time" where
  "Date year month day =
     (let y = year - 1;
          d = 365 * y + y div 4 - y div 100 + y div 400
              + daysBefore month + (if isLeap year \<and> 2 < month then 1 else 0)
              + (day - 1) - 719162
      in Time (86400 * d))"

text \<open>The calendar day of an instant (year, month, day), for \<^verbatim>\<open>Format\<close>.\<close>

definition civil :: "Time \<Rightarrow> int \<times> int \<times> int" where
  "civil t =
     (let z = Unix t div 86400 + 719468;
          era = z div 146097;
          doe = z mod 146097;
          yoe = (doe - doe div 1460 + doe div 36524 - doe div 146096) div 365;
          doy = doe - (365 * yoe + yoe div 4 - yoe div 100);
          mp = (5 * doy + 2) div 153;
          d = doy - (153 * mp + 2) div 5 + 1;
          m = (if mp < 10 then mp + 3 else mp - 9)
      in (yoe + era * 400 + (if m \<le> 2 then 1 else 0), m, d))"

definition digit :: "nat \<Rightarrow> char" where
  "digit n = char_of (48 + n mod 10)"

text \<open>\<^verbatim>\<open>appendInt\<close>: a number in decimal, padded with zeros to a width, signed when
  negative. The first argument of \<open>decimal\<close> bounds the number of digits.\<close>

fun decimal :: "nat \<Rightarrow> nat \<Rightarrow> string" where
  "decimal 0 n = []"
| "decimal (Suc fuel) n = (if n < 10 then [digit n] else decimal fuel (n div 10) @ [digit n])"

definition appendInt :: "int \<Rightarrow> nat \<Rightarrow> string" where
  "appendInt x width =
     (let ds = decimal (Suc (nat \<bar>x\<bar>)) (nat \<bar>x\<bar>)
      in (if x < 0 then ''-'' else []) @ replicate (width - length ds) (CHR ''0'') @ ds)"

text \<open>\<^verbatim>\<open>t.Format("2006-01-02")\<close>.\<close>

definition Format_date :: "Time \<Rightarrow> string" where
  "Format_date t =
     (case civil t of (y, m, d) \<Rightarrow> appendInt y 4 @ ''-'' @ appendInt m 2 @ ''-'' @ appendInt d 2)"

subsection \<open>Parsing a date\<close>

text \<open>
  The elements of a layout. The program's layouts hold four of the library's elements:
  \<^verbatim>\<open>January\<close> (the month's name), \<^verbatim>\<open>1\<close> (the month's number), \<^verbatim>\<open>2\<close> (the day) and
  \<^verbatim>\<open>2006\<close> (the year, four digits); everything else in them is literal text.
\<close>

datatype chunk = Lit string | StdLongMonth | StdNumMonth | StdDay | StdLongYear

datatype ParseError = ErrBad | ExtraText | MonthOutOfRange | DayOutOfRange

definition flush :: "string \<Rightarrow> chunk list" where
  "flush acc = (if acc = [] then [] else [Lit (rev acc)])"

text \<open>\<^verbatim>\<open>nextStdChunk\<close>, run over a whole layout, for these four elements. \<open>acc\<close> holds,
  reversed, the literal text read since the last element.\<close>

function chunks :: "string \<Rightarrow> string \<Rightarrow> chunk list" where
  "chunks acc layout =
     (if layout = [] then flush acc
      else if prefix ''January'' layout then flush acc @ StdLongMonth # chunks [] (drop 7 layout)
      else if prefix ''2006'' layout then flush acc @ StdLongYear # chunks [] (drop 4 layout)
      else if hd layout = CHR ''1'' \<and> \<not> prefix ''15'' layout
        then flush acc @ StdNumMonth # chunks [] (tl layout)
      else if hd layout = CHR ''2'' then flush acc @ StdDay # chunks [] (tl layout)
      else chunks (hd layout # acc) (tl layout))"
  by pat_completeness auto
termination
  by (relation "measure (\<lambda>(acc, layout). length layout)") auto

declare chunks.simps [simp del]

definition cutspace :: "string \<Rightarrow> string" where
  "cutspace s = dropWhile (\<lambda>c. c = CHR '' '') s"

text \<open>\<^verbatim>\<open>skip(value, prefix)\<close>: the value after the literal text \<open>prefix\<close>; a run of spaces
  of the layout stands for any run of spaces of the value.\<close>

function skip :: "string \<Rightarrow> string \<Rightarrow> string option" where
  "skip v [] = Some v"
| "skip v (p # ps) =
     (if p = CHR '' '' then
        (if v \<noteq> [] \<and> hd v \<noteq> CHR '' '' then None
         else skip (cutspace v) (cutspace (p # ps)))
      else (case v of [] \<Rightarrow> None | c # cs \<Rightarrow> if c \<noteq> p then None else skip cs ps))"
  by pat_completeness auto
termination
  by (relation "measure (\<lambda>(v, p). length p)")
    (auto simp: cutspace_def le_imp_less_Suc length_dropWhile_le)

definition isDigit :: "char \<Rightarrow> bool" where
  "isDigit c = (48 \<le> (of_char c :: nat) \<and> (of_char c :: nat) \<le> 57)"

definition digit_val :: "char \<Rightarrow> int" where
  "digit_val c = int (of_char c) - 48"

text \<open>\<^verbatim>\<open>getnum(s, false)\<close>: a number of one or two digits, and the rest.\<close>

fun getnum :: "string \<Rightarrow> (int \<times> string) option" where
  "getnum [] = None"
| "getnum [c] = (if isDigit c then Some (digit_val c, []) else None)"
| "getnum (c # d # s) =
     (if \<not> isDigit c then None
      else if \<not> isDigit d then Some (digit_val c, d # s)
      else Some (digit_val c * 10 + digit_val d, s))"

definition longMonthNames :: "string list" where
  "longMonthNames = [''January'', ''February'', ''March'', ''April'', ''May'', ''June'', ''July'',
     ''August'', ''September'', ''October'', ''November'', ''December'']"

text \<open>\<^verbatim>\<open>match(s1, s2)\<close>: equal up to the case of ASCII letters; the strings have one
  length.\<close>

fun match :: "string \<Rightarrow> string \<Rightarrow> bool" where
  "match (c1 # s1) (c2 # s2) =
     ((c1 = c2 \<or>
       ((of_char c1 :: nat) OR 32 = (of_char c2 :: nat) OR 32
         \<and> 97 \<le> (of_char c1 :: nat) OR 32 \<and> (of_char c1 :: nat) OR 32 \<le> 122))
      \<and> match s1 s2)"
| "match s1 s2 = True"

text \<open>\<^verbatim>\<open>lookup(tab, val)\<close>: the index of the first name of the table the value starts with,
  and the rest of the value. \<open>i\<close> is the index of the head of \<open>tab\<close>.\<close>

fun lookup :: "nat \<Rightarrow> string list \<Rightarrow> string \<Rightarrow> (int \<times> string) option" where
  "lookup i [] val = None"
| "lookup i (v # tab) val =
     (if length v \<le> length val \<and> match (take (length v) val) v
      then Some (int i, drop (length v) val)
      else lookup (Suc i) tab val)"

text \<open>
  The loop of \<^verbatim>\<open>time.Parse\<close> over the elements of the layout. The state is the year,
  the month and the day read so far; the library starts from year 0 and marks the month
  and the day not yet read by -1.
\<close>

fun parse_chunks :: "chunk list \<Rightarrow> string \<Rightarrow> int \<times> int \<times> int \<Rightarrow> ParseError + (int \<times> int \<times> int)" where
  "parse_chunks [] v ymd = (if v \<noteq> [] then Inl ExtraText else Inr ymd)"
| "parse_chunks (Lit p # cs) v ymd =
     (case skip v p of None \<Rightarrow> Inl ErrBad | Some v' \<Rightarrow> parse_chunks cs v' ymd)"
| "parse_chunks (StdLongMonth # cs) v (y, m, d) =
     (case lookup 0 longMonthNames v of None \<Rightarrow> Inl ErrBad
      | Some (i, v') \<Rightarrow> parse_chunks cs v' (y, i + 1, d))"
| "parse_chunks (StdNumMonth # cs) v (y, m, d) =
     (case getnum v of None \<Rightarrow> Inl ErrBad
      | Some (n, v') \<Rightarrow> if n \<le> 0 \<or> 12 < n then Inl MonthOutOfRange else parse_chunks cs v' (y, n, d))"
| "parse_chunks (StdDay # cs) v (y, m, d) =
     (case getnum v of None \<Rightarrow> Inl ErrBad | Some (n, v') \<Rightarrow> parse_chunks cs v' (y, m, n))"
| "parse_chunks (StdLongYear # cs) v (y, m, d) =
     (if length v < 4 \<or> \<not> list_all isDigit (take 4 v) then Inl ErrBad
      else parse_chunks cs (drop 4 v)
             (foldl (\<lambda>n c. n * 10 + digit_val c) 0 (take 4 v), m, d))"

text \<open>\<^verbatim>\<open>time.Parse(layout, value)\<close>: a month and a day the layout does not read are 1, and
  the day must exist in its month.\<close>

definition Parse :: "string \<Rightarrow> string \<Rightarrow> ParseError + Time" where
  "Parse layout v =
     (case parse_chunks (chunks [] layout) v (0, - 1, - 1) of
        Inl e \<Rightarrow> Inl e
      | Inr (year, m, d) \<Rightarrow>
          (let month = (if m < 0 then 1 else m); day = (if d < 0 then 1 else d)
           in if day < 1 \<or> daysIn month year < day then Inl DayOutOfRange
              else Inr (Date year month day)))"

section \<open>The data of the program\<close>

record Config =
  AppId :: string
  ReviewCount :: int
  BotName :: string
  IconEmoji :: string
  MessageText :: string
  WebHookUri :: string
  Location :: string

record Review =
  Id :: int
  Author :: string
  Title :: string
  Message :: string
  Rate :: string
  UpdatedAt :: Time
  Permalink :: string
  Color :: string

type_synonym Reviews = "Review list"

definition BASE_URI :: string where
  "BASE_URI = ''https://play.google.com''"

section \<open>Reading the reviews of a page\<close>

text \<open>
  One element of the page matching \<^verbatim>\<open>.single-review\<close>, as the program reads it: the text
  of the nodes it selects and the two attributes it asks for. The text of an empty
  selection and an attribute that is missing are the empty string.
\<close>

record block =
  author_name :: string
  review_date :: string
  permalink_href :: string
  review_title :: string
  review_body :: string
  review_link :: string
  rating_style :: string

text \<open>The layout chosen for the configured locale; the variable stays empty for every
  locale but two. The first layout is written in UTF-8, as the source file is.\<close>

definition timeForm :: "string \<Rightarrow> string" where
  "timeForm location =
     (if location = ''zh-tw''
        then ''2006'' @ [CHR 0xE5, CHR 0xB9, CHR 0xB4] @ ''1'' @ [CHR 0xE6, CHR 0x9C, CHR 0x88]
               @ ''2'' @ [CHR 0xE6, CHR 0x97, CHR 0xA5]
      else if location = ''en'' then ''January 2, 2006''
      else [])"

text \<open>What the function passed to \<^verbatim>\<open>Each\<close> does with one block: it returns early when the
  date does not parse, appends a review otherwise, and panics when it indexes a slice that
  has no element.\<close>

datatype block_result = Skipped ParseError | Emitted Review | Panicked

definition review_of_block :: "Config \<Rightarrow> block \<Rightarrow> block_result" where
  "review_of_block config s =
     (case Parse (timeForm (Location config)) (review_date s) of
        Inl err \<Rightarrow> Skipped err
      | Inr date \<Rightarrow>
          (let reviewTitle =
                 (if length (review_title s) = 0 then ''No title provided'' else review_title s)
           in case Split (review_body s) (review_link s) of
                [] \<Rightarrow> Panicked
              | reviewMessage # _ \<Rightarrow>
                  Emitted \<lparr>Id = 0, Author = author_name s, Title = reviewTitle,
                    Message = reviewMessage, Rate = parseRate (rating_style s),
                    UpdatedAt = date, Permalink = permalink_href s, Color = []\<rparr>))"

text \<open>The traversal of the blocks in document order; \<open>None\<close> is the panic.\<close>

fun Each :: "Config \<Rightarrow> block list \<Rightarrow> Reviews \<Rightarrow> Reviews option" where
  "Each config [] reviews = Some reviews"
| "Each config (s # ss) reviews =
     (case review_of_block config s of
        Skipped err \<Rightarrow> Each config ss reviews
      | Emitted review \<Rightarrow> Each config ss (reviews @ [review])
      | Panicked \<Rightarrow> None)"

subsection \<open>The order of the reviews\<close>

definition Less :: "Review \<Rightarrow> Review \<Rightarrow> bool" where
  "Less a b = (Unix (UpdatedAt a) > Unix (UpdatedAt b))"

text \<open>
  \<^verbatim>\<open>sort.Sort\<close> is the library's. On a short slice it runs an insertion sort: each
  element in turn is swapped towards the front while it is \<^verbatim>\<open>Less\<close> than the element
  before it. \<open>insert_back\<close> is that inner loop, on the sorted front of the slice held
  in reverse.
\<close>

fun insert_back :: "Review \<Rightarrow> Reviews \<Rightarrow> Reviews" where
  "insert_back x [] = [x]"
| "insert_back x (y # ys) = (if Less x y then y # insert_back x ys else x # y # ys)"

definition Sort :: "Reviews \<Rightarrow> Reviews" where
  "Sort r = rev (foldl (\<lambda>front x. insert_back x front) [] r)"

datatype failure = Err string | Panic

text \<open>\<^verbatim>\<open>GetReview\<close>. \<open>NewDocument\<close> stands for \<^verbatim>\<open>goquery.NewDocument\<close>: an error, or the
  review blocks of the page fetched at the address.\<close>

definition GetReview :: "(string \<Rightarrow> string + block list) \<Rightarrow> Config \<Rightarrow> failure + Reviews" where
  "GetReview NewDocument config =
     (let uri = BASE_URI @ ''/store/apps/details?id='' @ AppId config @ ''&hl='' @ Location config
      in case NewDocument uri of
           Inl err \<Rightarrow> Inl (Err err)
         | Inr doc \<Rightarrow>
             (case Each config doc [] of
                None \<Rightarrow> Inl Panic
              | Some reviews \<Rightarrow> Inr (Sort reviews)))"

section \<open>The store of the reviews already seen\<close>

text \<open>
  Modelled from the spec: the table \<^verbatim>\<open>review\<close> and the database behind the handle
  \<^verbatim>\<open>dbh\<close>, which are not part of the source. The spec describes a relational table keyed
  by an internal id, with the columns \<^verbatim>\<open>comment_uri\<close>, \<^verbatim>\<open>author\<close> and \<^verbatim>\<open>updated_at\<close>, of
  which the program needs a lookup by permalink and an insert. The id is given by the
  store, counting from 1 (the program reads the id 0 as "no row", here and in
  \<^verbatim>\<open>LastInsertId\<close>). A lookup or an insert can fail: \<open>faults\<close> lists what the next
  operations of the store run into, \<open>None\<close> for an operation that goes through and
  \<open>Some msg\<close> for one that fails with that message; past the end of the list every
  operation goes through.
\<close>

record row =
  row_id :: int
  author :: string
  comment_uri :: string
  updated_at :: Time

record DBH =
  rows :: "row list"
  serial :: nat
  faults :: "string option list"

definition ErrNoRows :: string where
  "ErrNoRows = ''sql: no rows in result set''"

definition next_fault :: "DBH \<Rightarrow> string option" where
  "next_fault dbh = (case faults dbh of [] \<Rightarrow> None | f # _ \<Rightarrow> f)"

definition consume :: "DBH \<Rightarrow> DBH" where
  "consume dbh = dbh\<lparr>faults := tl (faults dbh)\<rparr>"

text \<open>
  \<^verbatim>\<open>dbh.QueryRow("SELECT id FROM review WHERE comment_uri = $1", uri).Scan(&id)\<close> with
  \<^verbatim>\<open>id\<close> freshly declared: the store after the call, the error, and \<^verbatim>\<open>id\<close>, which is
  still 0 when the call returns an error.
\<close>

definition QueryRow_Scan :: "DBH \<Rightarrow> string \<Rightarrow> DBH \<times> string option \<times> int" where
  "QueryRow_Scan dbh uri =
     (case next_fault dbh of
        Some msg \<Rightarrow> (consume dbh, Some msg, 0)
      | None \<Rightarrow>
          (case find (\<lambda>r. comment_uri r = uri) (rows dbh) of
             None \<Rightarrow> (consume dbh, Some ErrNoRows, 0)
           | Some r \<Rightarrow> (consume dbh, None, row_id r)))"

text \<open>\<^verbatim>\<open>dbh.Exec("INSERT INTO review (author, comment_uri, updated_at) VALUES ($1, $2, $3)", ...)\<close>:
  the store after the call and the error.\<close>

definition Exec_insert :: "DBH \<Rightarrow> string \<Rightarrow> string \<Rightarrow> Time \<Rightarrow> DBH \<times> string option" where
  "Exec_insert dbh a uri t =
     (case next_fault dbh of
        Some msg \<Rightarrow> (consume dbh, Some msg)
      | None \<Rightarrow>
          (consume dbh
             \<lparr>rows := rows dbh @
                [\<lparr>row_id = int (Suc (serial dbh)), author = a, comment_uri = uri, updated_at = t\<rparr>],
              serial := Suc (serial dbh)\<rparr>,
           None))"

text \<open>The loop of \<^verbatim>\<open>SaveReviews\<close>: the store, the reviews to post so far, the reviews still to
  visit. The result is the store, the slice returned and the error returned.\<close>

fun SaveReviews_loop :: "DBH \<Rightarrow> Reviews \<Rightarrow> Reviews \<Rightarrow> DBH \<times> Reviews \<times> string option" where
  "SaveReviews_loop dbh postReviews [] = (dbh, postReviews, None)"
| "SaveReviews_loop dbh postReviews (review # reviews) =
     (case QueryRow_Scan dbh (Permalink review) of
        (dbh1, err, id') \<Rightarrow>
          if err \<noteq> None \<and> err \<noteq> Some ErrNoRows then (dbh1, postReviews, err)
          else if id' = 0 then
            (case Exec_insert dbh1 (Author review) (Permalink review) (UpdatedAt review) of
               (dbh2, Some err2) \<Rightarrow> (dbh2, postReviews, Some err2)
             | (dbh2, None) \<Rightarrow> SaveReviews_loop dbh2 (postReviews @ [review]) reviews)
          else SaveReviews_loop dbh1 postReviews reviews)"

definition SaveReviews :: "DBH \<Rightarrow> Reviews \<Rightarrow> DBH \<times> Reviews \<times> string option" where
  "SaveReviews dbh reviews = SaveReviews_loop dbh [] reviews"

text \<open>The identity record of a review is in the store.\<close>

definition recorded :: "DBH \<Rightarrow> Review \<Rightarrow> bool" where
  "recorded dbh review =
     list_ex (\<lambda>r. author r = Author review \<and> comment_uri r = Permalink review
                  \<and> updated_at r = UpdatedAt review) (rows dbh)"

text \<open>The permalinks the store holds a record of.\<close>

definition stored_uris :: "DBH \<Rightarrow> string list" where
  "stored_uris dbh = map comment_uri (rows dbh)"

text \<open>The store holds at most one record for a permalink, and no record has the id 0.\<close>

definition one_record_per_permalink :: "DBH \<Rightarrow> bool" where
  "one_record_per_permalink dbh = (distinct (stored_uris dbh) \<and> 0 \<notin> set (map row_id (rows dbh)))"

text \<open>The reviews of a sequence that are the first of their permalink, for permalinks not
  among \<open>seen\<close>.\<close>

fun first_new :: "string set \<Rightarrow> Reviews \<Rightarrow> Reviews" where
  "first_new seen [] = []"
| "first_new seen (review # reviews) =
     (if Permalink review \<in> seen then first_new seen reviews
      else review # first_new (insert (Permalink review) seen) reviews)"

text \<open>The identity records of a sequence of reviews, with the ids that follow \<open>n\<close>.\<close>

fun new_rows :: "nat \<Rightarrow> Reviews \<Rightarrow> row list" where
  "new_rows n [] = []"
| "new_rows n (review # reviews) =
     \<lparr>row_id = int (Suc n), author = Author review, comment_uri = Permalink review,
      updated_at = UpdatedAt review\<rparr> # new_rows (Suc n) reviews"

section \<open>Posting the reviews\<close>

record SlackAttachmentField =
  Field_Title :: string
  Field_Value :: string
  Field_Short :: bool

record SlackAttachment =
  Attachment_Author :: string
  Attachment_AuthorLink :: string
  Attachment_Title :: string
  Attachment_TitleLink :: string
  Attachment_Text :: string
  Attachment_Fallback :: string
  Attachment_Color :: string
  Attachment_Fields :: "SlackAttachmentField list"

record SlackPayload =
  Payload_Text :: string
  Payload_UserName :: string
  Payload_IconEmoji :: string
  Payload_Attachments :: "SlackAttachment list"

text \<open>The attachment the body of the loop of \<^verbatim>\<open>PostReview\<close> builds for one review.\<close>

definition attachment_of :: "Review \<Rightarrow> SlackAttachment" where
  "attachment_of review =
     \<lparr>Attachment_Author = [], Attachment_AuthorLink = [],
      Attachment_Title = Author review,
      Attachment_TitleLink = BASE_URI @ Permalink review,
      Attachment_Text = Message review,
      Attachment_Fallback = Message review @ '' '' @ Author review,
      Attachment_Color = Color review,
      Attachment_Fields =
        [\<lparr>Field_Title = ''Rating'', Field_Value = Rate review, Field_Short = True\<rparr>,
         \<lparr>Field_Title = ''UpdatedAt'', Field_Value = Format_date (UpdatedAt review),
           Field_Short = True\<rparr>]\<rparr>"

text \<open>The loop over the reviews, with its index \<open>i\<close>; it breaks at the first index that
  is not below the configured count.\<close>

fun attachments_loop :: "Config \<Rightarrow> int \<Rightarrow> Reviews \<Rightarrow> SlackAttachment list \<Rightarrow> SlackAttachment list" where
  "attachments_loop config i [] attachments = attachments"
| "attachments_loop config i (review # reviews) attachments =
     (if i \<ge> ReviewCount config then attachments
      else attachments_loop config (i + 1) reviews (attachments @ [attachment_of review]))"

definition slackPayload :: "Config \<Rightarrow> Reviews \<Rightarrow> SlackPayload" where
  "slackPayload config reviews =
     \<lparr>Payload_Text = MessageText config, Payload_UserName = BotName config,
      Payload_IconEmoji = IconEmoji config,
      Payload_Attachments = attachments_loop config 0 reviews []\<rparr>"

text \<open>
  The HTTP client: whether \<^verbatim>\<open>http.NewRequest\<close> accepts an address (the program drops its
  error and uses the request, which panics when there is none), and what \<^verbatim>\<open>client.Do\<close>
  answers to a payload posted to an address, an error or nothing.
\<close>

record http_client =
  NewRequest_ok :: "string \<Rightarrow> bool"
  Do :: "string \<Rightarrow> SlackPayload \<Rightarrow> string option"

text \<open>\<^verbatim>\<open>PostReview\<close>: the request sent, if one is (its address and payload), and what the
  call returns, \<open>None\<close> for \<^verbatim>\<open>nil\<close>. Marshalling a payload of strings and booleans has no
  error.\<close>

definition PostReview ::
    "http_client \<Rightarrow> Config \<Rightarrow> Reviews \<Rightarrow> (string \<times> SlackPayload) option \<times> failure option" where
  "PostReview client config reviews =
     (if 1 > length reviews then (None, None)
      else if \<not> NewRequest_ok client (WebHookUri config) then (None, Some Panic)
      else (Some (WebHookUri config, slackPayload config reviews),
            map_option Err (Do client (WebHookUri config) (slackPayload config reviews))))"

section \<open>Reading the configuration\<close>

definition MAX_REVIEW_NUM :: int where
  "MAX_REVIEW_NUM = 40"

text \<open>
  What \<^verbatim>\<open>NewConfig\<close> asks of the world: the file, the YAML decoder (the configuration it
  fills in, starting from the zero value, and its error), the environment variables
  (empty when unset), the database (\<^verbatim>\<open>pq.ParseURL\<close>, \<^verbatim>\<open>sql.Open\<close> and \<^verbatim>\<open>Ping\<close>, by
  connection string) and the status of the page fetched at an address.
\<close>

record world =
  ReadFile :: "string \<Rightarrow> string + string"
  Unmarshal :: "string \<Rightarrow> Config \<times> string option"
  Getenv :: "string \<Rightarrow> string"
  ParseURL :: "string \<Rightarrow> string"
  Open :: "string \<Rightarrow> string option"
  Ping :: "string \<Rightarrow> string option"
  Get :: "string \<Rightarrow> string + int"

definition zero_Config :: Config where
  "zero_Config = \<lparr>AppId = [], ReviewCount = 0, BotName = [], IconEmoji = [], MessageText = [],
     WebHookUri = [], Location = []\<rparr>"

text \<open>The four assignments guarded by "the variable is not empty".\<close>

definition override_from_env :: "world \<Rightarrow> Config \<Rightarrow> Config" where
  "override_from_env w config =
     (let c1 = (if Getenv w ''JON_SNOW_BOT_NAME'' \<noteq> [] then config\<lparr>BotName := Getenv w ''JON_SNOW_BOT_NAME''\<rparr> else config);
          c2 = (if Getenv w ''JON_SNOW_APP_ID'' \<noteq> [] then c1\<lparr>AppId := Getenv w ''JON_SNOW_APP_ID''\<rparr> else c1);
          c3 = (if Getenv w ''JON_SNOW_SLACK_HOOK'' \<noteq> [] then c2\<lparr>WebHookUri := Getenv w ''JON_SNOW_SLACK_HOOK''\<rparr> else c2)
      in (if Getenv w ''JON_SNOW_LOCATION'' \<noteq> [] then c3\<lparr>Location := Getenv w ''JON_SNOW_LOCATION''\<rparr> else c3))"

text \<open>\<^verbatim>\<open>NewConfig\<close>: the configuration and the error returned.\<close>

definition NewConfig :: "world \<Rightarrow> string \<Rightarrow> Config \<times> string option" where
  "NewConfig w path =
     (case ReadFile w path of
        Inl err \<Rightarrow> (zero_Config, Some err)
      | Inr data \<Rightarrow>
          (case Unmarshal w data of
             (config, Some err) \<Rightarrow> (config, Some err)
           | (config, None) \<Rightarrow>
               if ReviewCount config > MAX_REVIEW_NUM \<or> ReviewCount config < 1
               then (config, Some ''Please Set Num Between 1 and 40.'')
               else
                 (let connection = ParseURL w (Getenv w ''DATABASE_URL'') @ '' sslmode=require''
                  in case Open w connection of
                       Some err \<Rightarrow> (config, Some err)
                     | None \<Rightarrow>
                         (case Ping w connection of
                            Some err \<Rightarrow> (config, Some err)
                          | None \<Rightarrow>
                              (let config = override_from_env w config
                               in if AppId config = [] then
                                    (config, Some ''Please Set Your Google Play App Id.'')
                                  else
                                    (case Get w (BASE_URI @ ''/store/apps/details?id='' @ AppId config) of
                                       Inl err \<Rightarrow> (config, Some err)
                                     | Inr status \<Rightarrow>
                                         if status = 404
                                         then (config, Some (''AppID: '' @ AppId config @ '' is not exists''))
                                         else (config, None)))))))"

text \<open>A world in which every environment variable is set, to \<^verbatim>\<open>x\<close>, and a configuration
  file is found, decoded and accepted.\<close>

definition file_Config :: Config where
  "file_Config = \<lparr>AppId = ''com.example.app'', ReviewCount = 3, BotName = ''JonSnow'',
     IconEmoji = '':ghost:'', MessageText = ''New reviews'',
     WebHookUri = ''https://hooks.example/T'', Location = ''en''\<rparr>"

definition world_all_set :: world where
  "world_all_set = \<lparr>ReadFile = (\<lambda>path. Inr ''review_count: 3''),
     Unmarshal = (\<lambda>data. (file_Config, None)),
     Getenv = (\<lambda>name. ''x''),
     ParseURL = (\<lambda>url. url),
     Open = (\<lambda>connection. None),
     Ping = (\<lambda>connection. None),
     Get = (\<lambda>uri. Inr 200)\<rparr>"

section \<open>Sample data\<close>

text \<open>A store with no record and no failure ahead, and three reviews; the second has the
  permalink of the first.\<close>

definition empty_store :: DBH where
  "empty_store = \<lparr>rows = [], serial = 0, faults = []\<rparr>"

definition review_a :: Review where
  "review_a = \<lparr>Id = 0, Author = ''Ann'', Title = ''No title provided'', Message = ''Great app! '',
     Rate = '':star::star::star::star:'', UpdatedAt = Time 1425513600, Permalink = ''/r/1'',
     Color = []\<rparr>"

definition review_b :: Review where
  "review_b = \<lparr>Id = 0, Author = ''Bob'', Title = ''Crash'', Message = ''Crashes at start'',
     Rate = '':star:'', UpdatedAt = Time 1425427200, Permalink = ''/r/1'', Color = []\<rparr>"

definition review_c :: Review where
  "review_c = \<lparr>Id = 0, Author = ''Cem'', Title = ''Fine'', Message = ''Works'',
     Rate = '':star::star::star:'', UpdatedAt = Time 1425340800, Permalink = ''/r/2'', Color = []\<rparr>"

text \<open>A store whose third operation fails.\<close>

definition flaky_store :: DBH where
  "flaky_store = \<lparr>rows = [], serial = 0, faults = [None, None, Some ''driver: bad connection'']\<rparr>"

text \<open>Two more reviews, a configuration that asks for two reviews, and a client whose requests
  all go through.\<close>

definition review_d :: Review where
  "review_d = \<lparr>Id = 0, Author = ''Dee'', Title = ''Ok'', Message = ''Ok'',
     Rate = '':star::star:'', UpdatedAt = Time 1425254400, Permalink = ''/r/4'', Color = []\<rparr>"

definition review_e :: Review where
  "review_e = \<lparr>Id = 0, Author = ''Eli'', Title = ''Top'', Message = ''Love it'',
     Rate = '':star2::star2::star2::star2::star2:'', UpdatedAt = Time 1425168000,
     Permalink = ''/r/5'', Color = []\<rparr>"

definition config_two :: Config where
  "config_two = \<lparr>AppId = ''com.example.app'', ReviewCount = 2, BotName = ''JonSnow'',
     IconEmoji = '':ghost:'', MessageText = ''New reviews'',
     WebHookUri = ''https://hooks.example/T'', Location = ''en''\<rparr>"

definition client_ok :: http_client where
  "client_ok = \<lparr>NewRequest_ok = (\<lambda>uri. True), Do = (\<lambda>uri payload. None)\<rparr>"

text \<open>A world in which one environment variable is set, the bot's name.\<close>

definition world_env_bot :: world where
  "world_env_bot = \<lparr>ReadFile = (\<lambda>path. Inr ''review_count: 3''),
     Unmarshal = (\<lambda>data. (file_Config, None)),
     Getenv = (\<lambda>name. if name = ''JON_SNOW_BOT_NAME'' then ''Ghost'' else []),
     ParseURL = (\<lambda>url. url),
     Open = (\<lambda>connection. None),
     Ping = (\<lambda>connection. None),
     Get = (\<lambda>uri. Inr 200)\<rparr>"

text \<open>Review blocks: one with no link control, one with neither link control nor body, one
  whose body is a single letter, one with no date; and a configuration for a locale other
  than the two the program knows.\<close>

definition block_no_link :: block where
  "block_no_link = \<lparr>author_name = ''Ann'', review_date = ''March 5, 2015'',
     permalink_href = ''/r/1'', review_title = [], review_body = ''Great app!'',
     review_link = [], rating_style = ''width: 80%;''\<rparr>"

definition block_blank :: block where
  "block_blank = \<lparr>author_name = ''Ann'', review_date = ''March 5, 2015'',
     permalink_href = ''/r/1'', review_title = [], review_body = [],
     review_link = [], rating_style = ''width: 80%;''\<rparr>"

definition block_one_letter :: block where
  "block_one_letter = \<lparr>author_name = ''Ann'', review_date = ''March 5, 2015'',
     permalink_href = ''/r/1'', review_title = [], review_body = ''A'',
     review_link = [], rating_style = ''width: 80%;''\<rparr>"

definition block_no_date :: block where
  "block_no_date = \<lparr>author_name = ''Ann'', review_date = [],
     permalink_href = ''/r/1'', review_title = [], review_body = ''Great app! Full Review'',
     review_link = ''Full Review'', rating_style = ''width: 80%;''\<rparr>"

definition config_ja :: Config where
  "config_ja = \<lparr>AppId = ''com.example.app'', ReviewCount = 2, BotName = ''JonSnow'',
     IconEmoji = '':ghost:'', MessageText = ''New reviews'',
     WebHookUri = ''https://hooks.example/T'', Location = ''ja''\<rparr>"

section \<open>Properties of the library functions\<close>

lemma Contains_iff_sublist: "Contains s substr = sublist substr s"
  by (induction s) (auto simp: sublist_Cons_right)

section \<open>The rating decoder: claim C3\<close>

lemma Repeat_simps: "Repeat s 0 = []" "Repeat s (Suc n) = s @ Repeat s n"
  by (simp_all add: Repeat_def)

lemma Repeat_RATING_EMOJI:
  "Repeat RATING_EMOJI 1 = '':star:''"
  "Repeat RATING_EMOJI 2 = '':star::star:''"
  "Repeat RATING_EMOJI 3 = '':star::star::star:''"
  "Repeat RATING_EMOJI 4 = '':star::star::star::star:''"
  "Repeat RATING_EMOJI_2 5 = '':star2::star2::star2::star2::star2:''"
  by (simp_all add: Repeat_simps RATING_EMOJI_def RATING_EMOJI_2_def eval_nat_numeral)

text \<open>
  Claim C3, as stated, maps every style string containing \<^verbatim>\<open>width: 40%\<close> to two stars.
  A string that contains \<^verbatim>\<open>width: 20%\<close> as well is mapped to one star: the first case of
  the switch that matches decides.
\<close>

theorem parseRate_two_tokens_counterexample:
  "Contains ''width: 20%; width: 40%'' ''width: 40%''
   \<and> parseRate ''width: 20%; width: 40%'' = '':star:''
   \<and> parseRate ''width: 20%; width: 40%'' \<noteq> Repeat RATING_EMOJI 2"
  by (simp add: parseRate_def Repeat_simps RATING_EMOJI_def eval_nat_numeral)

text \<open>
  Claim C3, amended: the decoder returns the rating of the first of the five tokens
  \<^verbatim>\<open>width: 20%\<close>, \<^verbatim>\<open>width: 40%\<close>, \<^verbatim>\<open>width: 60%\<close>, \<^verbatim>\<open>width: 80%\<close>, \<^verbatim>\<open>width: 100%\<close>, in this
  order, that occurs in the style string: one to four times \<^verbatim>\<open>:star:\<close>, and five times
  \<^verbatim>\<open>:star2:\<close> for the last; it returns the empty rating for a string in which none occurs,
  as for \<^verbatim>\<open>width: 35%\<close> and the empty string.
\<close>

theorem parseRate_first_match:
  "parseRate s =
     (if sublist ''width: 20%'' s then '':star:''
      else if sublist ''width: 40%'' s then '':star::star:''
      else if sublist ''width: 60%'' s then '':star::star::star:''
      else if sublist ''width: 80%'' s then '':star::star::star::star:''
      else if sublist ''width: 100%'' s then '':star2::star2::star2::star2::star2:''
      else [])
   \<and> parseRate ''width: 35%'' = [] \<and> parseRate [] = []"
proof (intro conjI)
  show "parseRate s =
     (if sublist ''width: 20%'' s then '':star:''
      else if sublist ''width: 40%'' s then '':star::star:''
      else if sublist ''width: 60%'' s then '':star::star::star:''
      else if sublist ''width: 80%'' s then '':star::star::star::star:''
      else if sublist ''width: 100%'' s then '':star2::star2::star2::star2::star2:''
      else [])"
    unfolding parseRate_def Contains_iff_sublist [symmetric]
    by (simp only: Repeat_RATING_EMOJI)
  show "parseRate ''width: 35%'' = []"
    by (simp add: parseRate_def)
  show "parseRate [] = []"
    by (simp add: parseRate_def)
qed

section \<open>The dedup pass\<close>

lemma consume_no_faults: "faults dbh = [] \<Longrightarrow> consume dbh = dbh"
  by (simp add: consume_def)

lemma next_fault_no_faults: "faults dbh = [] \<Longrightarrow> next_fault dbh = None"
  by (simp add: next_fault_def)

lemma find_comment_uri_None:
  "(find (\<lambda>r. comment_uri r = uri) (rows dbh) = None) = (uri \<notin> set (stored_uris dbh))"
  by (auto simp: find_None_iff stored_uris_def)

lemma find_comment_uri_Some:
  "find (\<lambda>r. comment_uri r = uri) rs = Some r \<Longrightarrow> r \<in> set rs \<and> comment_uri r = uri"
  by (auto simp: find_Some_iff)

text \<open>One pass without a failure of the store: the reviews returned are the first reviews
  of the permalinks the store did not hold, and their records are appended to the table.\<close>

lemma SaveReviews_loop_no_faults:
  assumes "faults dbh = []"
    and "\<forall>r\<in>set (rows dbh). comment_uri r \<in> Permalink ` set reviews \<longrightarrow> row_id r \<noteq> 0"
  shows "SaveReviews_loop dbh postReviews reviews =
           (dbh\<lparr>rows := rows dbh @ new_rows (serial dbh) (first_new (set (stored_uris dbh)) reviews),
                serial := serial dbh + length (first_new (set (stored_uris dbh)) reviews)\<rparr>,
            postReviews @ first_new (set (stored_uris dbh)) reviews, None)"
  using assms
proof (induction reviews arbitrary: dbh postReviews)
  case Nil
  then show ?case by simp
next
  case (Cons review reviews)
  let ?p = "Permalink review"
  show ?case
  proof (cases "find (\<lambda>r. comment_uri r = ?p) (rows dbh)")
    case None
    let ?dbh2 = "dbh\<lparr>rows := rows dbh @
        [\<lparr>row_id = int (Suc (serial dbh)), author = Author review, comment_uri = ?p,
          updated_at = UpdatedAt review\<rparr>], serial := Suc (serial dbh)\<rparr>"
    have notin: "?p \<notin> set (stored_uris dbh)"
      using None by (simp add: find_comment_uri_None)
    have f2: "faults ?dbh2 = []"
      using Cons.prems(1) by simp
    have h2: "\<forall>r\<in>set (rows ?dbh2). comment_uri r \<in> Permalink ` set reviews \<longrightarrow> row_id r \<noteq> 0"
      using Cons.prems(2) by auto
    have uris2: "set (stored_uris ?dbh2) = insert ?p (set (stored_uris dbh))"
      by (simp add: stored_uris_def)
    have step: "SaveReviews_loop dbh postReviews (review # reviews) =
                  SaveReviews_loop ?dbh2 (postReviews @ [review]) reviews"
      using None Cons.prems(1)
      by (simp add: QueryRow_Scan_def Exec_insert_def next_fault_no_faults consume_no_faults)
    show ?thesis
      unfolding step Cons.IH [OF f2 h2] uris2
      using notin by simp
  next
    case (Some r)
    then have "r \<in> set (rows dbh)" "comment_uri r = ?p"
      by (auto dest: find_comment_uri_Some)
    then have id: "row_id r \<noteq> 0"
      using Cons.prems(2) by auto
    have "find (\<lambda>r. comment_uri r = ?p) (rows dbh) \<noteq> None"
      using Some by simp
    then have isin: "?p \<in> set (stored_uris dbh)"
      by (simp add: find_comment_uri_None)
    have h1: "\<forall>r\<in>set (rows dbh). comment_uri r \<in> Permalink ` set reviews \<longrightarrow> row_id r \<noteq> 0"
      using Cons.prems(2) by auto
    have step: "SaveReviews_loop dbh postReviews (review # reviews) =
                  SaveReviews_loop dbh postReviews reviews"
      using Some id Cons.prems(1)
      by (simp add: QueryRow_Scan_def next_fault_no_faults consume_no_faults)
    show ?thesis
      unfolding step Cons.IH [OF Cons.prems(1) h1]
      using isin by simp
  qed
qed

lemma first_new_all:
  "distinct (map Permalink reviews) \<Longrightarrow> Permalink ` set reviews \<inter> seen = {}
     \<Longrightarrow> first_new seen reviews = reviews"
  by (induction reviews arbitrary: seen) auto

lemma first_new_none: "Permalink ` set reviews \<subseteq> seen \<Longrightarrow> first_new seen reviews = []"
  by (induction reviews arbitrary: seen) auto

lemma first_new_distinct:
  "distinct (map Permalink (first_new seen reviews))
     \<and> Permalink ` set (first_new seen reviews) = Permalink ` set reviews - seen"
  by (induction reviews arbitrary: seen) auto

lemma comment_uri_new_rows: "map comment_uri (new_rows n reviews) = map Permalink reviews"
  by (induction reviews arbitrary: n) auto

lemma row_id_new_rows: "0 \<notin> row_id ` set (new_rows n reviews)"
  by (induction reviews arbitrary: n) auto

lemma recorded_new_rows:
  "review \<in> set reviews \<Longrightarrow> rows dbh = rs @ new_rows n reviews \<Longrightarrow> recorded dbh review"
proof (induction reviews arbitrary: n rs)
  case Nil
  then show ?case by simp
next
  case (Cons a reviews)
  show ?case
  proof (cases "review = a")
    case True
    then show ?thesis
      using Cons.prems(2) by (simp add: recorded_def list_ex_iff)
  next
    case False
    then have "review \<in> set reviews"
      using Cons.prems(1) by simp
    moreover have "rows dbh = (rs @ [\<lparr>row_id = int (Suc n), author = Author a,
        comment_uri = Permalink a, updated_at = UpdatedAt a\<rparr>]) @ new_rows (Suc n) reviews"
      using Cons.prems(2) by simp
    ultimately show ?thesis
      by (rule Cons.IH)
  qed
qed


subsection \<open>Two passes over one input: claim C1\<close>

text \<open>
  Claim C1, as stated, has the first pass return the whole input whenever the store holds
  none of its permalinks. When two reviews of the input share a permalink, the first pass
  returns the first of them only and records no identity for the second.
\<close>

theorem SaveReviews_shared_permalink_counterexample:
  "Permalink ` set [review_a, review_b] \<inter> set (stored_uris empty_store) = {}
   \<and> snd (SaveReviews empty_store [review_a, review_b]) = ([review_a], None)
   \<and> \<not> recorded (fst (SaveReviews empty_store [review_a, review_b])) review_b"
  by (simp add: SaveReviews_def QueryRow_Scan_def Exec_insert_def next_fault_def consume_def
      empty_store_def review_a_def review_b_def stored_uris_def recorded_def ErrNoRows_def)

text \<open>
  Claim C1, amended: when no operation of the store fails, the permalinks of the input are
  pairwise distinct and the store holds none of them, the first pass returns the whole
  input in its order, with no error, and leaves an identity record (author, permalink,
  updatedAt) in the store for every review of the input; a second pass over the same
  input, on the store the first pass left, returns the empty sequence, with no error.
\<close>

theorem SaveReviews_twice:
  assumes "faults dbh = []"
    and "distinct (map Permalink reviews)"
    and "Permalink ` set reviews \<inter> set (stored_uris dbh) = {}"
  shows "snd (SaveReviews dbh reviews) = (reviews, None)
         \<and> list_all (recorded (fst (SaveReviews dbh reviews))) reviews
         \<and> snd (SaveReviews (fst (SaveReviews dbh reviews)) reviews) = ([], None)"
proof -
  let ?S = "set (stored_uris dbh)"
  let ?dbh1 = "dbh\<lparr>rows := rows dbh @ new_rows (serial dbh) reviews,
                   serial := serial dbh + length reviews\<rparr>"
  have h: "\<forall>r\<in>set (rows dbh). comment_uri r \<in> Permalink ` set reviews \<longrightarrow> row_id r \<noteq> 0"
    using assms(3) by (auto simp: stored_uris_def)
  have all: "first_new ?S reviews = reviews"
    using assms(2,3) by (rule first_new_all)
  have first: "SaveReviews dbh reviews = (?dbh1, reviews, None)"
    unfolding SaveReviews_def SaveReviews_loop_no_faults [OF assms(1) h] all by simp
  have f1: "faults ?dbh1 = []"
    using assms(1) by simp
  have h1: "\<forall>r\<in>set (rows ?dbh1). comment_uri r \<in> Permalink ` set reviews \<longrightarrow> row_id r \<noteq> 0"
    using h row_id_new_rows [of "serial dbh" reviews] by (auto simp: image_iff)
  have "Permalink ` set reviews \<subseteq> set (stored_uris ?dbh1)"
    by (simp add: stored_uris_def comment_uri_new_rows)
  then have none: "first_new (set (stored_uris ?dbh1)) reviews = []"
    by (rule first_new_none)
  have second: "snd (SaveReviews ?dbh1 reviews) = ([], None)"
    unfolding SaveReviews_def SaveReviews_loop_no_faults [OF f1 h1] none by simp
  have "recorded ?dbh1 r" if "r \<in> set reviews" for r
    using that by (rule recorded_new_rows) simp
  then have rec: "list_all (recorded ?dbh1) reviews"
    by (simp add: list_all_iff)
  show ?thesis
    using first second rec by simp
qed

theorem SaveReviews_twice_witness:
  "snd (SaveReviews empty_store [review_a, review_c]) = ([review_a, review_c], None)
   \<and> list_all (recorded (fst (SaveReviews empty_store [review_a, review_c]))) [review_a, review_c]
   \<and> snd (SaveReviews (fst (SaveReviews empty_store [review_a, review_c])) [review_a, review_c])
       = ([], None)"
proof -
  have 1: "faults empty_store = []"
    by (simp add: empty_store_def)
  have 2: "distinct (map Permalink [review_a, review_c])"
    by (simp add: review_a_def review_c_def)
  have 3: "Permalink ` set [review_a, review_c] \<inter> set (stored_uris empty_store) = {}"
    by (simp add: stored_uris_def empty_store_def)
  show ?thesis
    using SaveReviews_twice [OF 1 2 3] .
qed


subsection \<open>Failures of the store\<close>

lemma SaveReviews_loop_append:
  "SaveReviews_loop dbh postReviews (pre @ rest) =
     (case SaveReviews_loop dbh postReviews pre of
        (dbh1, out1, None) \<Rightarrow> SaveReviews_loop dbh1 out1 rest
      | (dbh1, out1, Some err) \<Rightarrow> (dbh1, out1, Some err))"
proof (induction pre arbitrary: dbh postReviews)
  case Nil
  then show ?case by simp
next
  case (Cons review pre)
  show ?case
    by (simp add: Cons.IH split: prod.splits option.splits)
qed

lemma rows_consume [simp]: "rows (consume dbh) = rows dbh"
  by (simp add: consume_def)

lemma rows_QueryRow_Scan: "rows (fst (QueryRow_Scan dbh uri)) = rows dbh"
  by (simp add: QueryRow_Scan_def split: option.splits)

lemma rows_Exec_insert: "prefix (rows dbh) (rows (fst (Exec_insert dbh a uri t)))"
  by (simp add: Exec_insert_def split: option.splits)

lemma SaveReviews_loop_rows_grow:
  "prefix (rows dbh) (rows (fst (SaveReviews_loop dbh postReviews reviews)))"
proof (induction reviews arbitrary: dbh postReviews)
  case Nil
  then show ?case by simp
next
  case (Cons review reviews)
  obtain dbh1 err id' where q: "QueryRow_Scan dbh (Permalink review) = (dbh1, err, id')"
    by (cases "QueryRow_Scan dbh (Permalink review)") auto
  then have r1: "rows dbh1 = rows dbh"
    using rows_QueryRow_Scan [of dbh "Permalink review"] by simp
  obtain dbh2 err2 where
    e: "Exec_insert dbh1 (Author review) (Permalink review) (UpdatedAt review) = (dbh2, err2)"
    by (cases "Exec_insert dbh1 (Author review) (Permalink review) (UpdatedAt review)") auto
  then have r2: "prefix (rows dbh) (rows dbh2)"
    using rows_Exec_insert [of dbh1 "Author review" "Permalink review" "UpdatedAt review"] r1
    by simp
  have "prefix (rows dbh2) (rows (fst (SaveReviews_loop dbh2 (postReviews @ [review]) reviews)))"
    by (rule Cons.IH)
  then have r3: "prefix (rows dbh) (rows (fst (SaveReviews_loop dbh2 (postReviews @ [review]) reviews)))"
    using r2 by (rule prefix_order.trans [rotated])
  have r4: "prefix (rows dbh) (rows (fst (SaveReviews_loop dbh1 postReviews reviews)))"
    using Cons.IH [of dbh1 postReviews] r1 by simp
  show ?case
    using q e r1 r2 r3 r4 by (cases err2) (simp_all)
qed

lemma recorded_mono: "prefix (rows dbh) (rows dbh') \<Longrightarrow> recorded dbh r \<Longrightarrow> recorded dbh' r"
  by (auto simp: recorded_def list_ex_iff prefix_def)

lemma recorded_Exec_insert:
  "Exec_insert dbh (Author r) (Permalink r) (UpdatedAt r) = (dbh2, None) \<Longrightarrow> recorded dbh2 r"
  by (auto simp: Exec_insert_def recorded_def list_ex_iff split: option.splits)

text \<open>Every review a pass returns has its identity record in the store the pass leaves,
  whether the pass ends with an error or not.\<close>

lemma SaveReviews_loop_recorded:
  "list_all (recorded dbh) postReviews \<Longrightarrow>
     list_all (recorded (fst (SaveReviews_loop dbh postReviews reviews)))
       (fst (snd (SaveReviews_loop dbh postReviews reviews)))"
proof (induction reviews arbitrary: dbh postReviews)
  case Nil
  then show ?case by simp
next
  case (Cons review reviews)
  obtain dbh1 err id' where q: "QueryRow_Scan dbh (Permalink review) = (dbh1, err, id')"
    by (cases "QueryRow_Scan dbh (Permalink review)") auto
  then have r1: "rows dbh1 = rows dbh"
    using rows_QueryRow_Scan [of dbh "Permalink review"] by simp
  then have p1: "list_all (recorded dbh1) postReviews"
    using Cons.prems by (auto simp: list_all_iff intro: recorded_mono)
  obtain dbh2 err2 where
    e: "Exec_insert dbh1 (Author review) (Permalink review) (UpdatedAt review) = (dbh2, err2)"
    by (cases "Exec_insert dbh1 (Author review) (Permalink review) (UpdatedAt review)") auto
  then have r2: "prefix (rows dbh1) (rows dbh2)"
    using rows_Exec_insert [of dbh1 "Author review" "Permalink review" "UpdatedAt review"]
    by simp
  then have p2: "list_all (recorded dbh2) postReviews"
    using p1 by (auto simp: list_all_iff intro: recorded_mono)
  have p3: "list_all (recorded dbh2) (postReviews @ [review])" if "err2 = None"
    using p2 e that by (simp add: recorded_Exec_insert)
  show ?case
    using q e p1 p2 p3 Cons.IH [of dbh1 postReviews] Cons.IH [of dbh2 "postReviews @ [review]"]
    by (cases err2) (simp_all)
qed


text \<open>
  Claim C7: when, after the candidates \<open>pre\<close> went through, the lookup for the next
  candidate fails (with an error other than the report that no row was found), or its
  lookup finds no record and its insert fails, the pass ends there: it returns that error
  with the reviews collected so far, the table is the one the earlier candidates left
  (their inserts are not undone, and nothing of \<open>rest\<close> is visited), and every review
  collected has its identity record in the table.
\<close>

theorem SaveReviews_aborts_on_failure:
  assumes "SaveReviews dbh pre = (dbh1, out1, None)"
    and "(next_fault dbh1 = Some msg \<and> msg \<noteq> ErrNoRows)
         \<or> (next_fault dbh1 = None \<and> Permalink review \<notin> set (stored_uris dbh1)
             \<and> next_fault (consume dbh1) = Some msg)"
  shows "snd (SaveReviews dbh (pre @ review # rest)) = (out1, Some msg)
         \<and> rows (fst (SaveReviews dbh (pre @ review # rest))) = rows dbh1
         \<and> prefix (rows dbh) (rows dbh1)
         \<and> list_all (recorded (fst (SaveReviews dbh (pre @ review # rest)))) out1"
proof -
  have split: "SaveReviews dbh (pre @ review # rest) = SaveReviews_loop dbh1 out1 (review # rest)"
    using assms(1) by (simp add: SaveReviews_def SaveReviews_loop_append)
  have grow: "prefix (rows dbh) (rows dbh1)"
    using SaveReviews_loop_rows_grow [of dbh "[]" pre] assms(1) by (simp add: SaveReviews_def)
  have rec: "list_all (recorded dbh1) out1"
    using SaveReviews_loop_recorded [of dbh "[]" pre] assms(1) by (simp add: SaveReviews_def)
  from assms(2) show ?thesis
  proof
    assume lookup: "next_fault dbh1 = Some msg \<and> msg \<noteq> ErrNoRows"
    then have "SaveReviews_loop dbh1 out1 (review # rest) = (consume dbh1, out1, Some msg)"
      by (simp add: QueryRow_Scan_def)
    moreover have "list_all (recorded (consume dbh1)) out1"
      using rec by (auto simp: list_all_iff intro: recorded_mono)
    ultimately show ?thesis
      using split grow by simp
  next
    assume ins: "next_fault dbh1 = None \<and> Permalink review \<notin> set (stored_uris dbh1)
                    \<and> next_fault (consume dbh1) = Some msg"
    then have "find (\<lambda>r. comment_uri r = Permalink review) (rows dbh1) = None"
      by (simp add: find_comment_uri_None)
    then have "SaveReviews_loop dbh1 out1 (review # rest) = (consume (consume dbh1), out1, Some msg)"
      using ins by (simp add: QueryRow_Scan_def Exec_insert_def)
    moreover have "list_all (recorded (consume (consume dbh1))) out1"
      using rec by (auto simp: list_all_iff intro: recorded_mono)
    ultimately show ?thesis
      using split grow by simp
  qed
qed

theorem SaveReviews_aborts_on_failure_witness:
  "snd (SaveReviews flaky_store ([review_a] @ review_c # [review_b]))
     = ([review_a], Some ''driver: bad connection'')
   \<and> rows (fst (SaveReviews flaky_store ([review_a] @ review_c # [review_b])))
     = [\<lparr>row_id = 1, author = ''Ann'', comment_uri = ''/r/1'', updated_at = Time 1425513600\<rparr>]
   \<and> list_all (recorded (fst (SaveReviews flaky_store ([review_a] @ review_c # [review_b]))))
       [review_a]"
proof -
  let ?dbh1 = "\<lparr>rows = [\<lparr>row_id = 1, author = ''Ann'', comment_uri = ''/r/1'',
                   updated_at = Time 1425513600\<rparr>],
                 serial = 1, faults = [Some ''driver: bad connection'']\<rparr>"
  have 1: "SaveReviews flaky_store [review_a] = (?dbh1, [review_a], None)"
    by (simp add: SaveReviews_def QueryRow_Scan_def Exec_insert_def next_fault_def consume_def
        flaky_store_def review_a_def ErrNoRows_def)
  have 2: "(next_fault ?dbh1 = Some ''driver: bad connection''
              \<and> ''driver: bad connection'' \<noteq> ErrNoRows)
           \<or> (next_fault ?dbh1 = None \<and> Permalink review_c \<notin> set (stored_uris ?dbh1)
               \<and> next_fault (consume ?dbh1) = Some ''driver: bad connection'')"
    by (simp add: next_fault_def ErrNoRows_def)
  show ?thesis
    using SaveReviews_aborts_on_failure [OF 1 2, of "[review_b]"] by simp
qed


subsection \<open>One record for a permalink: claim C10\<close>

lemma faults_QueryRow_Scan: "faults (fst (QueryRow_Scan dbh uri)) = tl (faults dbh)"
  by (simp add: QueryRow_Scan_def consume_def split: option.splits)

lemma faults_Exec_insert: "faults (fst (Exec_insert dbh a uri t)) = tl (faults dbh)"
  by (simp add: Exec_insert_def consume_def split: option.splits)

lemma not_in_tl: "x \<notin> set xs \<Longrightarrow> x \<notin> set (tl xs)"
  by (cases xs) auto

text \<open>When the loop goes on to the insert, the store holds no record of the permalink.\<close>

lemma QueryRow_Scan_absent:
  assumes "QueryRow_Scan dbh uri = (dbh1, err, id')"
    and "\<not> (err \<noteq> None \<and> err \<noteq> Some ErrNoRows)" and "id' = 0"
    and "0 \<notin> set (map row_id (rows dbh))" and "Some ErrNoRows \<notin> set (faults dbh)"
  shows "uri \<notin> set (stored_uris dbh)"
proof (cases "next_fault dbh")
  case None
  show ?thesis
  proof (cases "find (\<lambda>r. comment_uri r = uri) (rows dbh)")
    case None
    then show ?thesis by (simp add: find_comment_uri_None)
  next
    case (Some r)
    then have "r \<in> set (rows dbh)"
      by (auto dest: find_comment_uri_Some)
    moreover have "row_id r = 0"
      using assms(1,3) Some \<open>next_fault dbh = None\<close> by (simp add: QueryRow_Scan_def)
    ultimately show ?thesis
      using assms(4) by force
  qed
next
  case (Some msg)
  then have "err = Some msg"
    using assms(1) by (simp add: QueryRow_Scan_def)
  then have "msg = ErrNoRows"
    using assms(2) by simp
  moreover have "Some msg \<in> set (faults dbh)"
    using Some by (cases "faults dbh") (simp_all add: next_fault_def)
  ultimately show ?thesis
    using assms(5) by simp
qed

lemma Exec_insert_keeps_one_record:
  assumes "one_record_per_permalink dbh" and "uri \<notin> set (stored_uris dbh)"
  shows "one_record_per_permalink (fst (Exec_insert dbh a uri t))"
  using assms
  by (auto simp: Exec_insert_def one_record_per_permalink_def stored_uris_def consume_def
      split: option.splits)

lemma SaveReviews_loop_one_record:
  "one_record_per_permalink dbh \<Longrightarrow> Some ErrNoRows \<notin> set (faults dbh) \<Longrightarrow>
     one_record_per_permalink (fst (SaveReviews_loop dbh postReviews reviews))"
proof (induction reviews arbitrary: dbh postReviews)
  case Nil
  then show ?case by simp
next
  case (Cons review reviews)
  obtain dbh1 err id' where q: "QueryRow_Scan dbh (Permalink review) = (dbh1, err, id')"
    by (cases "QueryRow_Scan dbh (Permalink review)") auto
  have r1: "rows dbh1 = rows dbh"
    using rows_QueryRow_Scan [of dbh "Permalink review"] q by simp
  have f1: "Some ErrNoRows \<notin> set (faults dbh1)"
    using faults_QueryRow_Scan [of dbh "Permalink review"] q Cons.prems(2)
    by (simp add: not_in_tl)
  have i1: "one_record_per_permalink dbh1"
    using Cons.prems(1) r1 by (simp add: one_record_per_permalink_def stored_uris_def)
  obtain dbh2 err2 where
    e: "Exec_insert dbh1 (Author review) (Permalink review) (UpdatedAt review) = (dbh2, err2)"
    by (cases "Exec_insert dbh1 (Author review) (Permalink review) (UpdatedAt review)") auto
  have f2: "Some ErrNoRows \<notin> set (faults dbh2)"
    using faults_Exec_insert [of dbh1 "Author review" "Permalink review" "UpdatedAt review"] e f1
    by (simp add: not_in_tl)
  show ?case
  proof (cases "err \<noteq> None \<and> err \<noteq> Some ErrNoRows")
    case True
    then show ?thesis
      using q i1 by simp
  next
    case False
    show ?thesis
    proof (cases "id' = 0")
      case True
      have "0 \<notin> set (map row_id (rows dbh))"
        using Cons.prems(1) by (simp add: one_record_per_permalink_def)
      then have "Permalink review \<notin> set (stored_uris dbh)"
        using q False True Cons.prems(2) by (intro QueryRow_Scan_absent)
      then have nin: "Permalink review \<notin> set (stored_uris dbh1)"
        using r1 by (simp add: stored_uris_def)
      have i2: "one_record_per_permalink dbh2"
        using Exec_insert_keeps_one_record [OF i1 nin, of "Author review" "UpdatedAt review"] e
        by simp
      show ?thesis
        using q e False True i1 i2 Cons.IH [OF i2 f2] by (cases err2) auto
    next
      case nz: False
      then show ?thesis
        using q False i1 Cons.IH [OF i1 f1] by auto
    qed
  qed
qed

lemma filter_first_new:
  "filter (\<lambda>r. Permalink r = uri) (first_new seen reviews) =
     (if uri \<in> seen then [] else take 1 (filter (\<lambda>r. Permalink r = uri) reviews))"
proof (induction reviews arbitrary: seen)
  case Nil
  then show ?case by simp
next
  case (Cons review reviews)
  show ?case
    by (auto simp: Cons.IH)
qed

text \<open>
  Claim C10: a pass keeps the store at one record at most for a permalink (with no record
  of id 0), whatever fails on the way, as long as no failure of the store reads as "no
  row found". When nothing fails, the pass returns, for each permalink the store did not
  hold, the first review of the input with that permalink and no later one, returns no
  review for a permalink the store held, and appends to the table the records of the
  reviews it returns, one for each.
\<close>

theorem SaveReviews_one_record_per_permalink:
  assumes "one_record_per_permalink dbh" and "Some ErrNoRows \<notin> set (faults dbh)"
  shows "one_record_per_permalink (fst (SaveReviews dbh reviews))
         \<and> (faults dbh = [] \<longrightarrow>
              snd (snd (SaveReviews dbh reviews)) = None
              \<and> filter (\<lambda>r. Permalink r = uri) (fst (snd (SaveReviews dbh reviews))) =
                  (if uri \<in> set (stored_uris dbh) then []
                   else take 1 (filter (\<lambda>r. Permalink r = uri) reviews))
              \<and> rows (fst (SaveReviews dbh reviews)) =
                  rows dbh @ new_rows (serial dbh) (fst (snd (SaveReviews dbh reviews))))"
proof (intro conjI impI)
  show "one_record_per_permalink (fst (SaveReviews dbh reviews))"
    unfolding SaveReviews_def using assms by (rule SaveReviews_loop_one_record)
next
  assume nf: "faults dbh = []"
  have "0 \<notin> set (map row_id (rows dbh))"
    using assms(1) by (simp add: one_record_per_permalink_def)
  then have h: "\<forall>r\<in>set (rows dbh). comment_uri r \<in> Permalink ` set reviews \<longrightarrow> row_id r \<noteq> 0"
    by auto
  note run = SaveReviews_loop_no_faults [OF nf h, of "[]"]
  show "snd (snd (SaveReviews dbh reviews)) = None"
    by (simp add: SaveReviews_def run)
  show "filter (\<lambda>r. Permalink r = uri) (fst (snd (SaveReviews dbh reviews))) =
          (if uri \<in> set (stored_uris dbh) then []
           else take 1 (filter (\<lambda>r. Permalink r = uri) reviews))"
    by (simp add: SaveReviews_def run filter_first_new)
  show "rows (fst (SaveReviews dbh reviews)) =
          rows dbh @ new_rows (serial dbh) (fst (snd (SaveReviews dbh reviews)))"
    by (simp add: SaveReviews_def run)
qed

theorem SaveReviews_one_record_per_permalink_witness:
  "one_record_per_permalink (fst (SaveReviews empty_store [review_a, review_c, review_b]))
   \<and> snd (snd (SaveReviews empty_store [review_a, review_c, review_b])) = None
   \<and> filter (\<lambda>r. Permalink r = ''/r/1'')
        (fst (snd (SaveReviews empty_store [review_a, review_c, review_b]))) = [review_a]
   \<and> rows (fst (SaveReviews empty_store [review_a, review_c, review_b])) =
        [\<lparr>row_id = 1, author = ''Ann'', comment_uri = ''/r/1'', updated_at = Time 1425513600\<rparr>,
         \<lparr>row_id = 2, author = ''Cem'', comment_uri = ''/r/2'', updated_at = Time 1425340800\<rparr>]"
proof -
  have 1: "one_record_per_permalink empty_store"
    by (simp add: one_record_per_permalink_def stored_uris_def empty_store_def)
  have 2: "Some ErrNoRows \<notin> set (faults empty_store)"
    by (simp add: empty_store_def)
  have 3: "faults empty_store = []"
    by (simp add: empty_store_def)
  have out: "fst (snd (SaveReviews empty_store [review_a, review_c, review_b]))
               = [review_a, review_c]"
    by (simp add: SaveReviews_def QueryRow_Scan_def Exec_insert_def next_fault_def consume_def
        empty_store_def review_a_def review_b_def review_c_def ErrNoRows_def)
  have new: "(if ''/r/1'' \<in> set (stored_uris empty_store) then []
              else take 1 (filter (\<lambda>r. Permalink r = ''/r/1'') [review_a, review_c, review_b]))
             = [review_a]"
    by (simp add: stored_uris_def empty_store_def review_a_def review_b_def review_c_def)
  have tab: "rows empty_store @ new_rows (serial empty_store) [review_a, review_c] =
        [\<lparr>row_id = 1, author = ''Ann'', comment_uri = ''/r/1'', updated_at = Time 1425513600\<rparr>,
         \<lparr>row_id = 2, author = ''Cem'', comment_uri = ''/r/2'', updated_at = Time 1425340800\<rparr>]"
    by (simp add: empty_store_def review_a_def review_c_def)
  show ?thesis
    using SaveReviews_one_record_per_permalink
      [OF 1 2, of "[review_a, review_c, review_b]" "''/r/1''"] 3
    unfolding out new tab by blast
qed


section \<open>The order of the reviews: claim C5\<close>

lemma mset_insert_back: "mset (insert_back x ys) = add_mset x (mset ys)"
  by (induction ys) auto

lemma set_insert_back: "set (insert_back x ys) = insert x (set ys)"
  by (induction ys) auto

text \<open>The sorted front, held in reverse, ascends by \<^verbatim>\<open>Unix()\<close>, and stays so.\<close>

lemma sorted_insert_back:
  "sorted (map (\<lambda>r. Unix (UpdatedAt r)) ys) \<Longrightarrow>
     sorted (map (\<lambda>r. Unix (UpdatedAt r)) (insert_back x ys))"
proof (induction ys)
  case Nil
  then show ?case by simp
next
  case (Cons y ys)
  show ?case
  proof (cases "Less x y")
    case True
    then show ?thesis
      using Cons by (auto simp: set_insert_back Less_def)
  next
    case False
    then show ?thesis
      using Cons.prems by (auto simp: Less_def)
  qed
qed

lemma foldl_insert_back:
  "mset (foldl (\<lambda>front x. insert_back x front) front r) = mset front + mset r
   \<and> (sorted (map (\<lambda>r. Unix (UpdatedAt r)) front) \<longrightarrow>
        sorted (map (\<lambda>r. Unix (UpdatedAt r)) (foldl (\<lambda>front x. insert_back x front) front r)))"
proof (induction r arbitrary: front)
  case Nil
  then show ?case by simp
next
  case (Cons x r)
  show ?case
    using Cons.IH [of "insert_back x front"]
    by (simp add: mset_insert_back sorted_insert_back)
qed

lemma mset_Sort: "mset (Sort r) = mset r"
  using foldl_insert_back [of "[]" r] by (simp add: Sort_def)

lemma Sort_descending: "sorted (rev (map (\<lambda>r. Unix (UpdatedAt r)) (Sort r)))"
  using foldl_insert_back [of "[]" r] by (simp add: Sort_def rev_map)

lemma Sort_strictly_descending:
  assumes "distinct (map UpdatedAt r)"
  shows "sorted_wrt (<) (rev (map (\<lambda>r. Unix (UpdatedAt r)) (Sort r)))"
proof -
  have "distinct r" "inj_on UpdatedAt (set r)"
    using assms by (simp_all add: distinct_map)
  then have "distinct (map (\<lambda>r. Unix (UpdatedAt r)) r)"
    by (auto simp: distinct_map inj_on_def Time.expand)
  moreover have "mset (map (\<lambda>r. Unix (UpdatedAt r)) (Sort r)) = mset (map (\<lambda>r. Unix (UpdatedAt r)) r)"
    by (simp add: mset_Sort)
  ultimately have "distinct (map (\<lambda>r. Unix (UpdatedAt r)) (Sort r))"
    by (metis mset_eq_imp_distinct_iff)
  then show ?thesis
    using Sort_descending [of r] by (simp add: strict_sorted_iff)
qed

text \<open>
  Claim C5: for reviews with pairwise distinct \<^verbatim>\<open>UpdatedAt\<close>, the ordering step turns every
  arrangement \<open>p\<close> of them into one and the same sequence, which holds the same reviews
  and descends strictly by \<^verbatim>\<open>UpdatedAt\<close>, the most recent first.
\<close>

theorem Sort_most_recent_first:
  assumes "distinct (map UpdatedAt r)" and "mset p = mset r"
  shows "sorted_wrt (\<lambda>a b. Unix (UpdatedAt a) > Unix (UpdatedAt b)) (Sort p)
         \<and> mset (Sort p) = mset r
         \<and> Sort p = Sort r"
proof -
  let ?key = "\<lambda>r. Unix (UpdatedAt r)"
  have dp: "distinct (map UpdatedAt p)"
    using assms by (metis mset_eq_imp_distinct_iff mset_map)
  have sp: "sorted_wrt (<) (rev (map ?key (Sort p)))"
    using dp by (rule Sort_strictly_descending)
  have sr: "sorted_wrt (<) (rev (map ?key (Sort r)))"
    using assms(1) by (rule Sort_strictly_descending)
  have sets: "set (Sort p) = set r" "set (Sort r) = set r"
    using assms(2) by (metis mset_Sort set_mset_mset)+
  then have "set (rev (map ?key (Sort p))) = set (rev (map ?key (Sort r)))"
    by simp
  then have "rev (map ?key (Sort p)) = rev (map ?key (Sort r))"
    using sp sr by (metis strict_sorted_equal)
  then have keys: "map ?key (Sort p) = map ?key (Sort r)"
    by simp
  have "inj_on UpdatedAt (set r)"
    using assms(1) by (simp add: distinct_map)
  then have "inj_on ?key (set r)"
    by (auto simp: inj_on_def Time.expand)
  then have "inj_on ?key (set (Sort p) \<union> set (Sort r))"
    using sets by simp
  then have same: "Sort p = Sort r"
    using keys by (simp add: inj_on_map_eq_map)
  have "sorted_wrt (\<lambda>a b. ?key a > ?key b) (Sort p)"
    using sp by (simp add: sorted_wrt_rev sorted_wrt_map)
  then show ?thesis
    using same assms(2) by (simp add: mset_Sort)
qed

theorem Sort_most_recent_first_witness:
  "sorted_wrt (\<lambda>a b. Unix (UpdatedAt a) > Unix (UpdatedAt b)) (Sort [review_c, review_a, review_b])
   \<and> Sort [review_c, review_a, review_b] = [review_a, review_b, review_c]
   \<and> Sort [review_a, review_b, review_c] = [review_a, review_b, review_c]"
proof -
  have 1: "distinct (map UpdatedAt [review_a, review_b, review_c])"
    by (simp add: review_a_def review_b_def review_c_def)
  have 2: "mset [review_c, review_a, review_b] = mset [review_a, review_b, review_c]"
    by simp
  have 3: "Sort [review_a, review_b, review_c] = [review_a, review_b, review_c]"
    by (simp add: Sort_def Less_def review_a_def review_b_def review_c_def)
  show ?thesis
    using Sort_most_recent_first [OF 1 2] unfolding 3 by blast
qed


section \<open>The notification: claim C6\<close>

lemma attachments_loop_take:
  "attachments_loop config i reviews attachments =
     attachments @ map attachment_of (take (nat (ReviewCount config - i)) reviews)"
proof (induction reviews arbitrary: i attachments)
  case Nil
  then show ?case by simp
next
  case (Cons review reviews)
  show ?case
  proof (cases "i \<ge> ReviewCount config")
    case True
    then show ?thesis by simp
  next
    case False
    then have "nat (ReviewCount config - i) = Suc (nat (ReviewCount config - (i + 1)))"
      by simp
    then show ?thesis
      using False by (simp add: Cons.IH)
  qed
qed

text \<open>
  Claim C6: the attachments of the payload are those of the first \<^verbatim>\<open>ReviewCount\<close> reviews of
  the input, in its order, so at most \<^verbatim>\<open>ReviewCount\<close> of them; for a count of 2 and five
  reviews they are the attachments of the first and of the second review; for the empty
  input \<^verbatim>\<open>PostReview\<close> sends no request and returns \<^verbatim>\<open>nil\<close>; for any other input, and an
  address the client accepts, it posts that payload and returns what the client answers.
\<close>

theorem PostReview_takes_first_reviews:
  "Payload_Attachments (slackPayload config reviews)
     = map attachment_of (take (nat (ReviewCount config)) reviews)
   \<and> (0 \<le> ReviewCount config \<longrightarrow>
        int (length (Payload_Attachments (slackPayload config reviews))) \<le> ReviewCount config)
   \<and> (ReviewCount config = 2 \<and> length reviews = 5 \<longrightarrow>
        Payload_Attachments (slackPayload config reviews)
          = [attachment_of (reviews ! 0), attachment_of (reviews ! 1)])
   \<and> PostReview client config [] = (None, None)
   \<and> (reviews \<noteq> [] \<and> NewRequest_ok client (WebHookUri config) \<longrightarrow>
        PostReview client config reviews
          = (Some (WebHookUri config, slackPayload config reviews),
             map_option Err (Do client (WebHookUri config) (slackPayload config reviews))))"
proof (intro conjI impI)
  show eq: "Payload_Attachments (slackPayload config reviews)
              = map attachment_of (take (nat (ReviewCount config)) reviews)"
    by (simp add: slackPayload_def attachments_loop_take)
  show "int (length (Payload_Attachments (slackPayload config reviews))) \<le> ReviewCount config"
    if "0 \<le> ReviewCount config"
    using that unfolding eq by simp
  show "Payload_Attachments (slackPayload config reviews)
          = [attachment_of (reviews ! 0), attachment_of (reviews ! 1)]"
    if h: "ReviewCount config = 2 \<and> length reviews = 5"
  proof -
    obtain a b rest where "reviews = a # b # rest"
      using h by (cases reviews; cases "tl reviews") auto
    then show ?thesis
      using h unfolding eq by (simp add: numeral_2_eq_2)
  qed
  show "PostReview client config [] = (None, None)"
    by (simp add: PostReview_def)
  show "PostReview client config reviews
          = (Some (WebHookUri config, slackPayload config reviews),
             map_option Err (Do client (WebHookUri config) (slackPayload config reviews)))"
    if "reviews \<noteq> [] \<and> NewRequest_ok client (WebHookUri config)"
    using that by (cases reviews) (simp_all add: PostReview_def)
qed

theorem PostReview_takes_first_reviews_witness:
  "Payload_Attachments
      (slackPayload config_two [review_a, review_b, review_c, review_d, review_e])
     = [attachment_of review_a, attachment_of review_b]
   \<and> int (length (Payload_Attachments
        (slackPayload config_two [review_a, review_b, review_c, review_d, review_e]))) \<le> 2
   \<and> PostReview client_ok config_two [] = (None, None)
   \<and> PostReview client_ok config_two [review_a, review_b, review_c, review_d, review_e]
     = (Some (''https://hooks.example/T'',
              slackPayload config_two [review_a, review_b, review_c, review_d, review_e]), None)"
proof -
  let ?rs = "[review_a, review_b, review_c, review_d, review_e]"
  have 1: "0 \<le> ReviewCount config_two"
    by (simp add: config_two_def)
  have 2: "ReviewCount config_two = 2 \<and> length ?rs = 5"
    by (simp add: config_two_def)
  have 3: "?rs \<noteq> [] \<and> NewRequest_ok client_ok (WebHookUri config_two)"
    by (simp add: client_ok_def)
  have 4: "?rs ! 0 = review_a" "?rs ! 1 = review_b"
    by simp_all
  have 5: "WebHookUri config_two = ''https://hooks.example/T''"
    "map_option Err (Do client_ok ''https://hooks.example/T'' (slackPayload config_two ?rs)) = None"
    by (simp_all add: config_two_def client_ok_def)
  have 6: "ReviewCount config_two = 2"
    by (simp add: config_two_def)
  show ?thesis
    using PostReview_takes_first_reviews [of config_two ?rs client_ok] 1 2 3
    unfolding 4 5 6 by blast
qed


section \<open>The configuration: claim C8\<close>

lemma override_from_env_fields:
  "BotName (override_from_env w c) =
     (if Getenv w ''JON_SNOW_BOT_NAME'' \<noteq> [] then Getenv w ''JON_SNOW_BOT_NAME'' else BotName c)"
  "AppId (override_from_env w c) =
     (if Getenv w ''JON_SNOW_APP_ID'' \<noteq> [] then Getenv w ''JON_SNOW_APP_ID'' else AppId c)"
  "WebHookUri (override_from_env w c) =
     (if Getenv w ''JON_SNOW_SLACK_HOOK'' \<noteq> [] then Getenv w ''JON_SNOW_SLACK_HOOK''
      else WebHookUri c)"
  "Location (override_from_env w c) =
     (if Getenv w ''JON_SNOW_LOCATION'' \<noteq> [] then Getenv w ''JON_SNOW_LOCATION'' else Location c)"
  "ReviewCount (override_from_env w c) = ReviewCount c"
  "IconEmoji (override_from_env w c) = IconEmoji c"
  "MessageText (override_from_env w c) = MessageText c"
  by (simp_all add: override_from_env_def Let_def)

lemma NewConfig_accepted:
  assumes "ReadFile w path = Inr data" and "Unmarshal w data = (file, None)"
    and "NewConfig w path = (config, None)"
  shows "config = override_from_env w file"
  using assms
  by (auto simp: NewConfig_def Let_def split: if_splits option.splits sum.splits)

text \<open>
  Claim C8, as stated, lets an environment variable override each of the seven options.
  In a world where every environment variable is set to \<^verbatim>\<open>x\<close>, the configuration returned
  has \<^verbatim>\<open>x\<close> as bot name, application id, webhook address and locale, and still has the
  review count, the icon and the message text of the file.
\<close>

theorem NewConfig_file_only_options_counterexample:
  "NewConfig world_all_set ''./config.yml''
     = (\<lparr>AppId = ''x'', ReviewCount = 3, BotName = ''x'', IconEmoji = '':ghost:'',
         MessageText = ''New reviews'', WebHookUri = ''x'', Location = ''x''\<rparr>, None)
   \<and> Getenv world_all_set ''JON_SNOW_ICON_EMOJI'' = ''x''
   \<and> Getenv world_all_set ''JON_SNOW_MESSAGE_TEXT'' = ''x''
   \<and> Getenv world_all_set ''JON_SNOW_REVIEW_COUNT'' = ''x''
   \<and> IconEmoji (fst (NewConfig world_all_set ''./config.yml'')) = IconEmoji file_Config
   \<and> MessageText (fst (NewConfig world_all_set ''./config.yml'')) = MessageText file_Config
   \<and> ReviewCount (fst (NewConfig world_all_set ''./config.yml'')) = ReviewCount file_Config"
  by (simp add: NewConfig_def world_all_set_def file_Config_def override_from_env_def
      MAX_REVIEW_NUM_def BASE_URI_def Let_def)

text \<open>
  Claim C8, amended: in a configuration that \<^verbatim>\<open>NewConfig\<close> returns without an error, the
  bot name, the application id, the webhook address and the locale are each the value of
  the environment variable \<^verbatim>\<open>JON_SNOW_BOT_NAME\<close>, \<^verbatim>\<open>JON_SNOW_APP_ID\<close>,
  \<^verbatim>\<open>JON_SNOW_SLACK_HOOK\<close>, \<^verbatim>\<open>JON_SNOW_LOCATION\<close> when that variable is not empty, and the
  value of the file otherwise, each independently of the other variables; the review
  count, the icon and the message text are always those of the file.
\<close>

theorem NewConfig_overrides:
  assumes "ReadFile w path = Inr data" and "Unmarshal w data = (file, None)"
    and "NewConfig w path = (config, None)"
  shows "BotName config =
           (if Getenv w ''JON_SNOW_BOT_NAME'' \<noteq> [] then Getenv w ''JON_SNOW_BOT_NAME''
            else BotName file)
         \<and> AppId config =
           (if Getenv w ''JON_SNOW_APP_ID'' \<noteq> [] then Getenv w ''JON_SNOW_APP_ID''
            else AppId file)
         \<and> WebHookUri config =
           (if Getenv w ''JON_SNOW_SLACK_HOOK'' \<noteq> [] then Getenv w ''JON_SNOW_SLACK_HOOK''
            else WebHookUri file)
         \<and> Location config =
           (if Getenv w ''JON_SNOW_LOCATION'' \<noteq> [] then Getenv w ''JON_SNOW_LOCATION''
            else Location file)
         \<and> ReviewCount config = ReviewCount file
         \<and> IconEmoji config = IconEmoji file
         \<and> MessageText config = MessageText file"
  unfolding NewConfig_accepted [OF assms]
  by (simp only: override_from_env_fields simp_thms)

theorem NewConfig_overrides_witness:
  "BotName (fst (NewConfig world_env_bot ''./config.yml'')) = ''Ghost''
   \<and> AppId (fst (NewConfig world_env_bot ''./config.yml'')) = ''com.example.app''
   \<and> WebHookUri (fst (NewConfig world_env_bot ''./config.yml'')) = ''https://hooks.example/T''
   \<and> Location (fst (NewConfig world_env_bot ''./config.yml'')) = ''en''
   \<and> ReviewCount (fst (NewConfig world_env_bot ''./config.yml'')) = 3
   \<and> IconEmoji (fst (NewConfig world_env_bot ''./config.yml'')) = '':ghost:''
   \<and> MessageText (fst (NewConfig world_env_bot ''./config.yml'')) = ''New reviews''"
proof -
  have 1: "ReadFile world_env_bot ''./config.yml'' = Inr ''review_count: 3''"
    by (simp add: world_env_bot_def)
  have 2: "Unmarshal world_env_bot ''review_count: 3'' = (file_Config, None)"
    by (simp add: world_env_bot_def)
  have 3: "NewConfig world_env_bot ''./config.yml''
             = (fst (NewConfig world_env_bot ''./config.yml''), None)"
    by (simp add: NewConfig_def world_env_bot_def file_Config_def override_from_env_def
        MAX_REVIEW_NUM_def BASE_URI_def Let_def)
  have 4: "Getenv world_env_bot ''JON_SNOW_BOT_NAME'' = ''Ghost''"
    "Getenv world_env_bot ''JON_SNOW_APP_ID'' = []"
    "Getenv world_env_bot ''JON_SNOW_SLACK_HOOK'' = []"
    "Getenv world_env_bot ''JON_SNOW_LOCATION'' = []"
    by (simp_all add: world_env_bot_def)
  show ?thesis
    using NewConfig_overrides [OF 1 2 3] unfolding 4 by (simp add: file_Config_def)
qed


section \<open>The message of a review: claims C2 and C9\<close>

lemma Index_None_iff: "(Index s substr = None) = (\<not> Contains s substr)"
  by (induction s) auto

text \<open>\<open>Index\<close> finds the first place at which the string goes on with \<open>substr\<close>.\<close>

lemma Index_first_occurrence:
  "Index s substr = Some i \<Longrightarrow>
     i \<le> length s \<and> prefix substr (drop i s) \<and> (\<forall>j<i. \<not> prefix substr (drop j s))"
proof (induction s arbitrary: i)
  case Nil
  then show ?case by (simp split: if_splits)
next
  case (Cons c cs)
  show ?case
  proof (cases "prefix substr (c # cs)")
    case True
    then show ?thesis
      using Cons.prems by simp
  next
    case False
    then obtain k where k: "Index cs substr = Some k" "i = Suc k"
      using Cons.prems by auto
    have "\<not> prefix substr (drop j (c # cs))" if "j < Suc k" for j
      using that False Cons.IH [OF k(1)] by (cases j) auto
    then show ?thesis
      using Cons.IH [OF k(1)] k(2) by simp
  qed
qed

text \<open>For a separator that is not empty, the first piece is the string up to the first
  occurrence of the separator, and the whole string when there is none.\<close>

lemma genSplit_first_piece:
  "sep \<noteq> [] \<Longrightarrow>
     \<exists>rest. genSplit acc s sep =
       (rev acc @ (case Index s sep of None \<Rightarrow> s | Some i \<Rightarrow> take i s)) # rest"
proof (induction s arbitrary: acc)
  case Nil
  then show ?case
    by (simp add: genSplit.simps)
next
  case (Cons c cs)
  show ?case
  proof (cases "prefix sep (c # cs)")
    case True
    then show ?thesis
      using Cons.prems by (simp add: genSplit.simps [of acc "c # cs" sep])
  next
    case False
    obtain rest where
      "genSplit (c # acc) cs sep =
         (rev (c # acc) @ (case Index cs sep of None \<Rightarrow> cs | Some i \<Rightarrow> take i cs)) # rest"
      using Cons.IH [OF Cons.prems, of "c # acc"] by auto
    then show ?thesis
      using False by (simp add: genSplit.simps [of acc "c # cs" sep] split: option.splits)
  qed
qed

text \<open>
  Where the link control has a text, the code does what claim C2 says: the message is
  the body up to the first occurrence of that text, and the whole body when the text does
  not occur in it.
\<close>

lemma message_truncated_at_link:
  assumes "review_link s \<noteq> []"
    and "Parse (timeForm (Location config)) (review_date s) = Inr date"
  shows "\<exists>r. review_of_block config s = Emitted r
           \<and> Message r = (case Index (review_body s) (review_link s) of
                            None \<Rightarrow> review_body s | Some i \<Rightarrow> take i (review_body s))"
proof -
  obtain rest where
    "Split (review_body s) (review_link s) =
       (case Index (review_body s) (review_link s) of
          None \<Rightarrow> review_body s | Some i \<Rightarrow> take i (review_body s)) # rest"
    using genSplit_first_piece [OF assms(1), of "[]" "review_body s"] assms(1)
    by (auto simp: Split_def)
  then show ?thesis
    using assms(2) by (simp add: review_of_block_def)
qed

lemma chunks_en:
  "chunks [] ''January 2, 2006'' = [StdLongMonth, Lit '' '', StdDay, Lit '', '', StdLongYear]"
  by (simp add: chunks.simps flush_def)

lemma Parse_en_March_5_2015: "Parse (timeForm ''en'') ''March 5, 2015'' = Inr (Time 1425513600)"
  by (simp add: Parse_def timeForm_def chunks_en daysIn_def Date_def isLeap_def daysBefore_def
      longMonthNames_def isDigit_def digit_val_def cutspace_def)

lemma message_example:
  "Split ''Great app! Read more'' ''Read more'' = [''Great app! '', []]
   \<and> Index ''Great app! Read more'' ''Read more'' = Some 11"
  by (simp add: Split_def genSplit.simps)

text \<open>
  Claim C2 at a block that has no link control (the text of the link is empty): the body
  \<^verbatim>\<open>Great app!\<close> gives the message \<^verbatim>\<open>G\<close>, which is neither the body nor the body cut at the
  first occurrence of the empty text, and an empty body makes the program panic.
\<close>

theorem message_without_link_control:
  "Index (review_body block_no_link) (review_link block_no_link) = Some 0
   \<and> review_of_block config_two block_no_link =
       Emitted \<lparr>Id = 0, Author = ''Ann'', Title = ''No title provided'', Message = ''G'',
         Rate = '':star::star::star::star:'', UpdatedAt = Time 1425513600, Permalink = ''/r/1'',
         Color = []\<rparr>
   \<and> review_of_block config_two block_blank = Panicked
   \<and> GetReview (\<lambda>uri. Inr [block_blank]) config_two = Inl Panic"
proof -
  have date: "Parse (timeForm (Location config_two)) ''March 5, 2015'' = Inr (Time 1425513600)"
    by (simp add: config_two_def Parse_en_March_5_2015)
  have rate: "parseRate ''width: 80%;'' = '':star::star::star::star:''"
    by (simp add: parseRate_def Repeat_simps RATING_EMOJI_def eval_nat_numeral)
  have 1: "Index (review_body block_no_link) (review_link block_no_link) = Some 0"
    by (simp add: block_no_link_def)
  have 2: "review_of_block config_two block_no_link =
       Emitted \<lparr>Id = 0, Author = ''Ann'', Title = ''No title provided'', Message = ''G'',
         Rate = '':star::star::star::star:'', UpdatedAt = Time 1425513600, Permalink = ''/r/1'',
         Color = []\<rparr>"
    by (simp add: review_of_block_def block_no_link_def date rate Split_def)
  have 3: "review_of_block config_two block_blank = Panicked"
    by (simp add: review_of_block_def block_blank_def date Split_def)
  have 4: "GetReview (\<lambda>uri. Inr [block_blank]) config_two = Inl Panic"
    by (simp add: GetReview_def 3)
  show ?thesis
    using 1 2 3 4 by simp
qed


subsection \<open>A link control without text: claim C9\<close>

lemma rune_width_bounds:
  "s \<noteq> [] \<Longrightarrow> 1 \<le> rune_width s \<and> rune_width s \<le> 4 \<and> rune_width s \<le> length s"
  by (induction s rule: rune_width.induct) (auto simp: Let_def split: list.splits)

lemma Each_panics:
  "s \<in> set ss \<Longrightarrow> review_of_block config s = Panicked \<Longrightarrow> Each config ss reviews = None"
proof (induction ss arbitrary: reviews)
  case Nil
  then show ?case by simp
next
  case (Cons a ss)
  show ?case
  proof (cases "a = s")
    case True
    then show ?thesis
      using Cons.prems(2) by simp
  next
    case False
    then have "Each config ss r = None" for r
      using Cons by simp
    then show ?thesis
      by (simp split: block_result.splits)
  qed
qed

text \<open>
  Claim C9, as stated, has the message differ from the body for every block whose link
  control has no text. For a body of one letter the message is the body.
\<close>

theorem message_one_letter_counterexample:
  "review_link block_one_letter = []
   \<and> review_body block_one_letter = ''A''
   \<and> review_of_block config_two block_one_letter =
       Emitted \<lparr>Id = 0, Author = ''Ann'', Title = ''No title provided'', Message = ''A'',
         Rate = '':star::star::star::star:'', UpdatedAt = Time 1425513600, Permalink = ''/r/1'',
         Color = []\<rparr>"
proof -
  have date: "Parse (timeForm (Location config_two)) ''March 5, 2015'' = Inr (Time 1425513600)"
    by (simp add: config_two_def Parse_en_March_5_2015)
  have rate: "parseRate ''width: 80%;'' = '':star::star::star::star:''"
    by (simp add: parseRate_def Repeat_simps RATING_EMOJI_def eval_nat_numeral)
  show ?thesis
    by (simp add: review_of_block_def block_one_letter_def date rate Split_def)
qed

text \<open>
  Claim C9, amended: for a block whose link control has no text and whose date parses,
  the message is the first UTF-8 sequence of the body (one to four bytes; one byte where
  the body does not start with a well-formed sequence), which is the whole body only when
  the body is no longer than that; when the body is empty as well, the split has no piece,
  indexing its first element panics, and \<^verbatim>\<open>GetReview\<close> does not return.
\<close>

theorem message_for_empty_link:
  assumes "review_link s = []"
    and "Parse (timeForm (Location config)) (review_date s) = Inr date"
  shows "review_of_block config s =
           (if review_body s = [] then Panicked
            else Emitted \<lparr>Id = 0, Author = author_name s,
                   Title = (if length (review_title s) = 0 then ''No title provided''
                            else review_title s),
                   Message = take (rune_width (review_body s)) (review_body s),
                   Rate = parseRate (rating_style s), UpdatedAt = date,
                   Permalink = permalink_href s, Color = []\<rparr>)
         \<and> (review_body s \<noteq> [] \<longrightarrow>
               1 \<le> rune_width (review_body s) \<and> rune_width (review_body s) \<le> 4)
         \<and> (take (rune_width (review_body s)) (review_body s) = review_body s)
             = (length (review_body s) \<le> rune_width (review_body s))
         \<and> (review_body s = [] \<and> s \<in> set ss \<longrightarrow> GetReview (\<lambda>uri. Inr ss) config = Inl Panic)"
proof (intro conjI impI)
  show block: "review_of_block config s =
           (if review_body s = [] then Panicked
            else Emitted \<lparr>Id = 0, Author = author_name s,
                   Title = (if length (review_title s) = 0 then ''No title provided''
                            else review_title s),
                   Message = take (rune_width (review_body s)) (review_body s),
                   Rate = parseRate (rating_style s), UpdatedAt = date,
                   Permalink = permalink_href s, Color = []\<rparr>)"
    using assms by (cases "review_body s") (simp_all add: review_of_block_def Split_def)
  show "1 \<le> rune_width (review_body s)" if "review_body s \<noteq> []"
    using rune_width_bounds [OF that] by blast
  show "rune_width (review_body s) \<le> 4" if "review_body s \<noteq> []"
    using rune_width_bounds [OF that] by blast
  show "(take (rune_width (review_body s)) (review_body s) = review_body s)
          = (length (review_body s) \<le> rune_width (review_body s))"
    by (simp add: take_all_iff)
  show "GetReview (\<lambda>uri. Inr ss) config = Inl Panic" if "review_body s = [] \<and> s \<in> set ss"
  proof -
    have "review_of_block config s = Panicked"
      using that block by simp
    then have "Each config ss [] = None"
      using that by (intro Each_panics) simp_all
    then show ?thesis
      by (simp add: GetReview_def)
  qed
qed

theorem message_for_empty_link_witness:
  "review_of_block config_two block_no_link =
       Emitted \<lparr>Id = 0, Author = ''Ann'', Title = ''No title provided'', Message = ''G'',
         Rate = '':star::star::star::star:'', UpdatedAt = Time 1425513600, Permalink = ''/r/1'',
         Color = []\<rparr>
   \<and> rune_width (review_body block_no_link) = 1
   \<and> take (rune_width (review_body block_no_link)) (review_body block_no_link)
       \<noteq> review_body block_no_link
   \<and> review_of_block config_two block_blank = Panicked
   \<and> GetReview (\<lambda>uri. Inr [block_no_link, block_blank]) config_two = Inl Panic"
proof -
  have date: "Parse (timeForm (Location config_two)) ''March 5, 2015'' = Inr (Time 1425513600)"
    by (simp add: config_two_def Parse_en_March_5_2015)
  have 1: "review_link block_no_link = []"
    by (simp add: block_no_link_def)
  have 2: "Parse (timeForm (Location config_two)) (review_date block_no_link)
             = Inr (Time 1425513600)"
    by (simp add: block_no_link_def date)
  have 3: "review_link block_blank = []"
    by (simp add: block_blank_def)
  have 4: "Parse (timeForm (Location config_two)) (review_date block_blank)
             = Inr (Time 1425513600)"
    by (simp add: block_blank_def date)
  have 5: "review_body block_blank = [] \<and> block_blank \<in> set [block_no_link, block_blank]"
    by (simp add: block_blank_def)
  have 6: "review_body block_no_link \<noteq> []"
    by (simp add: block_no_link_def)
  have rate: "parseRate (rating_style block_no_link) = '':star::star::star::star:''"
    by (simp add: block_no_link_def parseRate_def Repeat_simps RATING_EMOJI_def eval_nat_numeral)
  have a: "review_of_block config_two block_no_link =
       Emitted \<lparr>Id = 0, Author = ''Ann'', Title = ''No title provided'', Message = ''G'',
         Rate = '':star::star::star::star:'', UpdatedAt = Time 1425513600, Permalink = ''/r/1'',
         Color = []\<rparr>"
    using message_for_empty_link [OF 1 2, of "[]"] 6
    by (simp add: rate) (simp add: block_no_link_def)
  have b: "rune_width (review_body block_no_link) = 1"
    by (simp add: block_no_link_def)
  have c: "take (rune_width (review_body block_no_link)) (review_body block_no_link)
             \<noteq> review_body block_no_link"
    using message_for_empty_link [OF 1 2, of "[]"] b by (simp add: block_no_link_def)
  have d: "review_of_block config_two block_blank = Panicked
           \<and> GetReview (\<lambda>uri. Inr [block_no_link, block_blank]) config_two = Inl Panic"
    using message_for_empty_link [OF 3 4, of "[block_no_link, block_blank]"] 5 by simp
  show ?thesis
    using a b c d by simp
qed


section \<open>Blocks whose date does not parse: claim C4\<close>

lemma review_of_block_Skipped:
  "Parse (timeForm (Location config)) (review_date s) = Inl err \<Longrightarrow>
     review_of_block config s = Skipped err"
  by (simp add: review_of_block_def)

lemma review_of_block_Emitted:
  "review_of_block config s = Emitted r \<Longrightarrow>
     Parse (timeForm (Location config)) (review_date s) = Inr (UpdatedAt r)"
  by (auto simp: review_of_block_def Let_def split: sum.splits list.splits)

text \<open>Every review the traversal adds carries the date its block's text parses to under
  the layout of the configured locale; a block whose date does not parse adds none.\<close>

lemma Each_emits_parsed_dates:
  "Each config ss reviews = Some out \<Longrightarrow> r \<in> set out \<Longrightarrow>
     r \<in> set reviews
     \<or> (\<exists>s\<in>set ss. Parse (timeForm (Location config)) (review_date s) = Inr (UpdatedAt r))"
proof (induction ss arbitrary: reviews)
  case Nil
  then show ?case by simp
next
  case (Cons s ss)
  show ?case
  proof (cases "review_of_block config s")
    case (Skipped err)
    then show ?thesis
      using Cons.IH [of reviews] Cons.prems by auto
  next
    case (Emitted review)
    then have "Each config ss (reviews @ [review]) = Some out"
      using Cons.prems(1) by simp
    then have "r \<in> set (reviews @ [review])
        \<or> (\<exists>s\<in>set ss. Parse (timeForm (Location config)) (review_date s) = Inr (UpdatedAt r))"
      using Cons.prems(2) by (rule Cons.IH)
    then show ?thesis
      using review_of_block_Emitted [OF Emitted] by auto
  next
    case Panicked
    then show ?thesis
      using Cons.prems(1) by simp
  qed
qed

text \<open>The layout of a locale the program does not know is empty, and the empty layout
  accepts the empty text, and nothing else, as the first day of the year 0.\<close>

lemma timeForm_other: "location \<noteq> ''zh-tw'' \<Longrightarrow> location \<noteq> ''en'' \<Longrightarrow> timeForm location = []"
  by (simp add: timeForm_def)

lemma Parse_empty_layout:
  "Parse [] v = (if v = [] then Inr (Time (- 62167219200)) else Inl ExtraText)"
  by (simp add: Parse_def chunks.simps flush_def daysIn_def Date_def isLeap_def daysBefore_def)

lemma unknown_locale_block:
  assumes "Location config \<noteq> ''zh-tw''" and "Location config \<noteq> ''en''"
  shows "review_date s \<noteq> [] \<Longrightarrow> review_of_block config s = Skipped ExtraText"
    and "review_date s = [] \<Longrightarrow> review_of_block config s = Emitted r \<Longrightarrow>
           UpdatedAt r = Time (- 62167219200)"
proof -
  have layout: "timeForm (Location config) = []"
    using assms by (rule timeForm_other)
  show "review_of_block config s = Skipped ExtraText" if "review_date s \<noteq> []"
    using that by (intro review_of_block_Skipped) (simp add: layout Parse_empty_layout)
  show "UpdatedAt r = Time (- 62167219200)"
    if "review_date s = []" "review_of_block config s = Emitted r"
    using review_of_block_Emitted [OF that(2)] that(1) by (simp add: layout Parse_empty_layout)
qed

text \<open>
  Claim C4 at a block whose date text is empty, with the locale \<^verbatim>\<open>ja\<close>, which the program
  does not know: the empty layout parses the empty text, the block is not skipped, and
  the review returned carries the first day of the year 0 as its \<^verbatim>\<open>UpdatedAt\<close>.
\<close>

theorem review_without_date_in_unknown_locale:
  "timeForm (Location config_ja) = []
   \<and> Parse (timeForm (Location config_ja)) (review_date block_no_date)
       = Inr (Time (- 62167219200))
   \<and> GetReview (\<lambda>uri. Inr [block_no_date]) config_ja =
       Inr [\<lparr>Id = 0, Author = ''Ann'', Title = ''No title provided'', Message = ''Great app! '',
         Rate = '':star::star::star::star:'', UpdatedAt = Time (- 62167219200),
         Permalink = ''/r/1'', Color = []\<rparr>]
   \<and> Format_date (Time (- 62167219200)) = ''0000-01-01''"
proof -
  have layout: "timeForm (Location config_ja) = []"
    by (simp add: timeForm_def config_ja_def)
  have date: "Parse (timeForm (Location config_ja)) (review_date block_no_date)
                = Inr (Time (- 62167219200))"
    by (simp add: layout Parse_empty_layout block_no_date_def)
  have rate: "parseRate (rating_style block_no_date) = '':star::star::star::star:''"
    by (simp add: block_no_date_def parseRate_def Repeat_simps RATING_EMOJI_def eval_nat_numeral)
  have split: "Split (review_body block_no_date) (review_link block_no_date)
                 = [''Great app! '', []]"
    by (simp add: block_no_date_def Split_def genSplit.simps)
  have block: "review_of_block config_ja block_no_date =
       Emitted \<lparr>Id = 0, Author = ''Ann'', Title = ''No title provided'', Message = ''Great app! '',
         Rate = '':star::star::star::star:'', UpdatedAt = Time (- 62167219200),
         Permalink = ''/r/1'', Color = []\<rparr>"
    by (simp add: review_of_block_def date rate split) (simp add: block_no_date_def)
  have run: "GetReview (\<lambda>uri. Inr [block_no_date]) config_ja =
       Inr [\<lparr>Id = 0, Author = ''Ann'', Title = ''No title provided'', Message = ''Great app! '',
         Rate = '':star::star::star::star:'', UpdatedAt = Time (- 62167219200),
         Permalink = ''/r/1'', Color = []\<rparr>]"
    by (simp add: GetReview_def block Sort_def)
  have fmt: "Format_date (Time (- 62167219200)) = ''0000-01-01''"
    by code_simp
  show ?thesis
    using layout date run fmt by simp
qed

end
